theory Spec2Isabelle
  imports Complex_Main "HOL-Library.AList" "HOL-Library.Char_ord" "HOL-Library.List_Lexorder"
begin

section \<open>Data model\<close>

text \<open>
  The planner of the scheduler works on Python objects: host and VM objects of the
  inventory (attributes \<^verbatim>\<open>name\<close>, \<^verbatim>\<open>_moId\<close>, \<^verbatim>\<open>runtime.host\<close>,
  \<^verbatim>\<open>config.template\<close>), and dictionaries of metrics. Objects become records,
  dictionaries become association lists in insertion order (Python dictionaries keep
  insertion order; \<open>AList.update\<close> overwrites in place or appends, as item assignment
  does), \<^verbatim>\<open>None\<close> becomes \<open>None\<close>. Logging calls have no effect on the results and are
  left out.

  Numbers. Counts of VMs are Python \<^verbatim>\<open>int\<close>s and stay \<open>int\<close>. Usages, capacities and
  percentages are Python \<^verbatim>\<open>int\<close>s or \<^verbatim>\<open>float\<close>s (IEEE doubles); each is the real
  number it denotes, and comparisons, \<^verbatim>\<open>min\<close> and \<^verbatim>\<open>max\<close> are the exact ones, as
  they are in Python. The arithmetic operators are not: \<^verbatim>\<open>+\<close>, \<^verbatim>\<open>-\<close>, \<^verbatim>\<open>*\<close>,
  \<^verbatim>\<open>/\<close> and \<^verbatim>\<open>round(x, 2)\<close> round their result to a double. They are parameters
  of the model (the record \<open>arith\<close>), and no theorem assumes anything about them but
  what it states. Not-a-number, the infinities, and integers beyond the range of
  doubles (on which a mixed operation raises \<^verbatim>\<open>OverflowError\<close>) are outside the model.
\<close>

record arith =
  fl_add :: "real \<Rightarrow> real \<Rightarrow> real"
  fl_sub :: "real \<Rightarrow> real \<Rightarrow> real"
  fl_mul :: "real \<Rightarrow> real \<Rightarrow> real"
  fl_div :: "real \<Rightarrow> real \<Rightarrow> real"
  fl_round2 :: "real \<Rightarrow> real"

record host =
  host_name :: string
  host_moId :: string

record vm =
  vm_name :: string
  vm_moId :: string
  vm_host :: "host option"
  vm_template :: bool

type_synonym metrics = "(string \<times> real) list"

text \<open>
  \<^verbatim>\<open>ClusterState\<close>: the lists \<^verbatim>\<open>vms\<close> and \<^verbatim>\<open>hosts\<close> and the dictionaries
  \<^verbatim>\<open>vm_metrics\<close> and \<^verbatim>\<open>host_metrics\<close> (entity name to a dictionary of numbers; the
  non-numeric entries of the source's dictionaries are never read by the planner).
\<close>

record cluster_state =
  cs_vms :: "vm list"
  cs_hosts :: "host list"
  cs_vm_metrics :: "(string \<times> metrics) list"
  cs_host_metrics :: "(string \<times> metrics) list"

text \<open>\<^verbatim>\<open>d.get(k, default)\<close> on a dictionary.\<close>

definition dict_get :: "('k \<times> 'v) list \<Rightarrow> 'k \<Rightarrow> 'v \<Rightarrow> 'v" where
  "dict_get d k dflt = (case map_of d k of None \<Rightarrow> dflt | Some v \<Rightarrow> v)"

text \<open>
  \<^verbatim>\<open>min(xs)\<close> and \<^verbatim>\<open>max(xs)\<close> of a list. Python raises on the empty list; every call
  in the source stands behind a test that the list is not empty.
\<close>

fun py_min :: "'a::linorder list \<Rightarrow> 'a" where
  "py_min (x # xs) = fold min xs x"

fun py_max :: "'a::linorder list \<Rightarrow> 'a" where
  "py_max (x # xs) = fold max xs x"

text \<open>The slice \<^verbatim>\<open>xs[:n]\<close>: a negative \<^verbatim>\<open>n\<close> counts from the end.\<close>

definition py_take :: "int \<Rightarrow> 'a list \<Rightarrow> 'a list" where
  "py_take n xs = (if 0 \<le> n then take (nat n) xs else take (length xs - nat (- n)) xs)"

subsection \<open>ClusterState\<close>

text \<open>\<^verbatim>\<open>get_host_of_vm\<close>: the VM's \<^verbatim>\<open>runtime.host\<close>, or \<^verbatim>\<open>None\<close>.\<close>

definition get_host_of_vm :: "cluster_state \<Rightarrow> vm \<Rightarrow> host option" where
  "get_host_of_vm cs v = vm_host v"

text \<open>\<^verbatim>\<open>get_vms_on_host\<close>: the VMs whose host has the \<^verbatim>\<open>_moId\<close> of the given host
  (an empty \<^verbatim>\<open>_moId\<close> is falsy and matches nothing).\<close>

definition get_vms_on_host :: "cluster_state \<Rightarrow> host \<Rightarrow> vm list" where
  "get_vms_on_host cs h =
     (if host_moId h = [] then []
      else filter (\<lambda>v. case get_host_of_vm cs v of
                           None \<Rightarrow> False
                         | Some hv \<Rightarrow> host_moId hv \<noteq> [] \<and> host_moId hv = host_moId h)
             (cs_vms cs))"

text \<open>\<^verbatim>\<open>get_host_by_name\<close>: the first host of that name.\<close>

definition get_host_by_name :: "cluster_state \<Rightarrow> string \<Rightarrow> host option" where
  "get_host_by_name cs n = find (\<lambda>h. host_name h = n) (cs_hosts cs)"

section \<open>ConstraintManager\<close>

text \<open>
  The manager's state: the grouping \<^verbatim>\<open>vm_distribution\<close> (prefix to the VMs of the
  group, in insertion order) and the list \<^verbatim>\<open>violations\<close>. The private
  \<^verbatim>\<open>_vm_prefix_cache\<close> only memoises \<^verbatim>\<open>_get_vm_prefix\<close>, a function of the name
  alone, so the prefix is computed directly.
\<close>

record constraint_manager =
  vm_distribution :: "(string \<times> vm list) list"
  violations :: "vm list"

definition is_digit :: "char \<Rightarrow> bool" where
  "is_digit c = (c \<in> set ''0123456789'')"

text \<open>\<^verbatim>\<open>name.rstrip('0123456789')\<close>.\<close>

definition rstrip_digits :: "string \<Rightarrow> string" where
  "rstrip_digits s = rev (dropWhile is_digit (rev s))"

text \<open>\<^verbatim>\<open>_get_vm_prefix\<close>: \<^verbatim>\<open>vm_name.rstrip('0123456789') or vm_name\<close>.\<close>

definition get_vm_prefix :: "string \<Rightarrow> string" where
  "get_vm_prefix vm_name' = (if rstrip_digits vm_name' = [] then vm_name' else rstrip_digits vm_name')"

text \<open>\<^verbatim>\<open>vm_distribution.setdefault(short_name, []).append(vm)\<close>.\<close>

definition dist_append :: "string \<Rightarrow> vm \<Rightarrow> (string \<times> vm list) list \<Rightarrow> (string \<times> vm list) list" where
  "dist_append k v d = AList.update k (dict_get d k [] @ [v]) d"

text \<open>\<^verbatim>\<open>enforce_anti_affinity\<close>: regroups all VMs with a name of at least one
  character by prefix.\<close>

definition enforce_anti_affinity :: "cluster_state \<Rightarrow> constraint_manager \<Rightarrow> constraint_manager" where
  "enforce_anti_affinity cs cm =
     cm\<lparr>vm_distribution :=
          fold (\<lambda>v d. if length (vm_name v) < 1 then d
                       else dist_append (get_vm_prefix (vm_name v)) v d)
               (cs_vms cs) []\<rparr>"

text \<open>\<^verbatim>\<open>{host.name: 0 for host in active_hosts}\<close> and the same with empty lists.\<close>

definition zero_counts :: "host list \<Rightarrow> (string \<times> int) list" where
  "zero_counts hs = fold (\<lambda>h d. AList.update (host_name h) 0 d) hs []"

definition empty_lists :: "host list \<Rightarrow> (string \<times> vm list) list" where
  "empty_lists hs = fold (\<lambda>h d. AList.update (host_name h) [] d) hs []"

text \<open>
  The body of the loop over a group in \<^verbatim>\<open>calculate_anti_affinity_violations\<close>: the
  state is \<^verbatim>\<open>host_vm_counts\<close>, \<^verbatim>\<open>vms_on_hosts_map\<close> and
  \<^verbatim>\<open>current_group_vms_on_hosts\<close>.
\<close>

definition count_vm ::
  "cluster_state \<Rightarrow> vm \<Rightarrow> (string \<times> int) list \<times> (string \<times> vm list) list \<times> nat
     \<Rightarrow> (string \<times> int) list \<times> (string \<times> vm list) list \<times> nat" where
  "count_vm cs v st =
     (case st of (host_vm_counts, vms_on_hosts_map, n) \<Rightarrow>
        (case get_host_of_vm cs v of
           None \<Rightarrow> st
         | Some h \<Rightarrow>
             (case map_of host_vm_counts (host_name h) of
                None \<Rightarrow> st
              | Some c \<Rightarrow>
                  (AList.update (host_name h) (c + 1) host_vm_counts,
                   AList.update (host_name h) (dict_get vms_on_hosts_map (host_name h) [] @ [v])
                     vms_on_hosts_map,
                   Suc n))))"

text \<open>The violators of one group (one iteration of the loop over
  \<^verbatim>\<open>vm_distribution.items()\<close>).\<close>

definition group_violations :: "cluster_state \<Rightarrow> vm list \<Rightarrow> vm list" where
  "group_violations cs vms_in_group =
     (if vms_in_group = [] then []
      else
        (case fold (count_vm cs) vms_in_group
                (zero_counts (cs_hosts cs), empty_lists (cs_hosts cs), 0) of
           (host_vm_counts, vms_on_hosts_map, current_group_vms_on_hosts) \<Rightarrow>
             if current_group_vms_on_hosts = 0 then []
             else
               (let actual_counts =
                      map (\<lambda>h. the (map_of host_vm_counts (host_name h)))
                        (filter (\<lambda>h. map_of host_vm_counts (host_name h) \<noteq> None) (cs_hosts cs))
                in if actual_counts = [] then []
                   else
                     (let min_count = py_min actual_counts;
                          max_count = py_max actual_counts
                      in if max_count - min_count > 1
                         then concat (map (\<lambda>(host_name', count).
                                             if count = max_count
                                             then dict_get vms_on_hosts_map host_name' []
                                             else [])
                                        host_vm_counts)
                         else []))))"

text \<open>
  \<^verbatim>\<open>calculate_anti_affinity_violations\<close>. The source returns
  \<^verbatim>\<open>list(set(all_violations))\<close>, whose order Python does not fix; the model returns
  the distinct violators in one such order (\<open>remdups\<close>), and no statement below
  depends on the order chosen.
\<close>

definition calculate_anti_affinity_violations :: "cluster_state \<Rightarrow> constraint_manager \<Rightarrow> vm list" where
  "calculate_anti_affinity_violations cs cm =
     (if cs_hosts cs = [] \<or> length (cs_hosts cs) \<le> 1 then []
      else remdups (concat (map (\<lambda>(prefix, vms_in_group). group_violations cs vms_in_group)
                              (vm_distribution cm))))"

text \<open>\<^verbatim>\<open>apply\<close>: group, then store the violators.\<close>

definition apply_constraints :: "cluster_state \<Rightarrow> constraint_manager \<Rightarrow> constraint_manager" where
  "apply_constraints cs cm =
     (let cm1 = enforce_anti_affinity cs cm
      in cm1\<lparr>violations := calculate_anti_affinity_violations cs cm1\<rparr>)"

subsection \<open>Target selection\<close>

text \<open>
  A planned move is the dictionary \<^verbatim>\<open>{'vm': ..., 'target_host': ..., 'reason': ...}\<close>.
  The reason is the string \<^verbatim>\<open>'Anti-Affinity'\<close> or a string that starts with
  \<^verbatim>\<open>'Resource Balancing ('\<close> and lists the resources that made the source host a
  candidate; the planner only ever tests it for equality with \<^verbatim>\<open>'Anti-Affinity'\<close>.
\<close>

datatype reason = AntiAffinity | ResourceBalancing "string list"

record migration =
  mig_vm :: vm
  mig_target_host :: host
  mig_reason :: reason

text \<open>The base counts of \<^verbatim>\<open>get_preferred_host_for_vm\<close>: one loop step per VM of the
  group.\<close>

definition base_count_vm :: "cluster_state \<Rightarrow> vm \<Rightarrow> (string \<times> int) list \<Rightarrow> (string \<times> int) list" where
  "base_count_vm cs v counts =
     (case get_host_of_vm cs v of
        None \<Rightarrow> counts
      | Some h \<Rightarrow>
          (case map_of counts (host_name h) of
             None \<Rightarrow> counts
           | Some c \<Rightarrow> AList.update (host_name h) (c + 1) counts))"

text \<open>
  The adjustment for one planned move: when the planned VM has the prefix of the group,
  the count of its current host is decremented, the count of its planned target is
  incremented, and a negative count of the current host is reset to 0.
\<close>

definition adjust_for_plan ::
  "cluster_state \<Rightarrow> string \<Rightarrow> migration \<Rightarrow> (string \<times> int) list \<Rightarrow> (string \<times> int) list" where
  "adjust_for_plan cs vm_prefix plan adjusted =
     (if get_vm_prefix (vm_name (mig_vm plan)) = vm_prefix then
        (let original_host = get_host_of_vm cs (mig_vm plan);
             a1 = (case original_host of
                     None \<Rightarrow> adjusted
                   | Some oh \<Rightarrow>
                       (case map_of adjusted (host_name oh) of
                          None \<Rightarrow> adjusted
                        | Some c \<Rightarrow> AList.update (host_name oh) (c - 1) adjusted));
             target_name = host_name (mig_target_host plan);
             a2 = (case map_of a1 target_name of
                     None \<Rightarrow> a1
                   | Some c \<Rightarrow> AList.update target_name (c + 1) a1)
         in (case original_host of
               None \<Rightarrow> a2
             | Some oh \<Rightarrow>
                 if dict_get a2 (host_name oh) 0 < 0 then AList.update (host_name oh) 0 a2 else a2))
      else adjusted)"

text \<open>
  The selection loop shared by both stages: the state is the best host so far and the
  lowest count so far (\<open>None\<close> for \<^verbatim>\<open>float('inf')\<close>). A candidate with a lower count
  wins; at an equal count the lexicographically smaller name wins.
\<close>

definition pick_lower ::
  "(string \<times> int) list \<Rightarrow> host \<Rightarrow> host option \<times> int option \<Rightarrow> host option \<times> int option" where
  "pick_lower counts candidate st =
     (case st of (best, lowest) \<Rightarrow>
        (let current_count = dict_get counts (host_name candidate) 0
         in if (case lowest of None \<Rightarrow> True | Some l \<Rightarrow> current_count < l)
            then (Some candidate, Some current_count)
            else if lowest = Some current_count
            then (case best of
                    Some b \<Rightarrow> if host_name candidate < host_name b then (Some candidate, lowest) else st
                  | None \<Rightarrow> (Some candidate, lowest))
            else st))"

text \<open>The simulated counts of stage 1: the move of the VM from the source to the target.\<close>

definition simulate_move :: "(string \<times> int) list \<Rightarrow> string \<Rightarrow> string \<Rightarrow> (string \<times> int) list" where
  "simulate_move counts source_host_name target_host_name =
     (let s1 = AList.update source_host_name (dict_get counts source_host_name 1 - 1) counts
      in AList.update target_host_name (dict_get s1 target_host_name 0 + 1) s1)"

definition counts_of_active :: "(string \<times> int) list \<Rightarrow> host list \<Rightarrow> int list" where
  "counts_of_active counts active_hosts =
     map (\<lambda>h. the (map_of counts (host_name h)))
       (filter (\<lambda>h. map_of counts (host_name h) \<noteq> None) active_hosts)"

definition is_perfect_balance_candidate ::
  "(string \<times> int) list \<Rightarrow> string \<Rightarrow> host list \<Rightarrow> host \<Rightarrow> bool" where
  "is_perfect_balance_candidate counts source_host_name active_hosts target =
     (host_name target \<noteq> source_host_name \<and>
      (let sim_counts_values =
             counts_of_active (simulate_move counts source_host_name (host_name target)) active_hosts
       in sim_counts_values \<noteq> [] \<and> py_max sim_counts_values - py_min sim_counts_values \<le> 1))"

text \<open>\<^verbatim>\<open>_find_perfect_balance_host\<close>.\<close>

definition find_perfect_balance_host ::
  "(string \<times> int) list \<Rightarrow> string \<Rightarrow> host list \<Rightarrow> host option" where
  "find_perfect_balance_host current_host_group_counts source_host_name active_hosts =
     (let perfect_balance_candidates =
            filter (is_perfect_balance_candidate current_host_group_counts source_host_name active_hosts)
              active_hosts
      in fst (fold (pick_lower current_host_group_counts) perfect_balance_candidates (None, None)))"

text \<open>\<^verbatim>\<open>_find_better_than_source_host\<close>.\<close>

definition find_better_than_source_host ::
  "(string \<times> int) list \<Rightarrow> string \<Rightarrow> int \<Rightarrow> host list \<Rightarrow> host option" where
  "find_better_than_source_host current_host_group_counts source_host_name source_host_group_count
       active_hosts =
     fst (fold (\<lambda>target st.
                  if host_name target = source_host_name then st
                  else if dict_get current_host_group_counts (host_name target) 0 < source_host_group_count
                  then pick_lower current_host_group_counts target st
                  else st)
            active_hosts (None, None))"

text \<open>The counts \<^verbatim>\<open>get_preferred_host_for_vm\<close> decides on: the base counts of the
  group, adjusted by the moves already planned.\<close>

definition adjusted_host_group_counts ::
  "cluster_state \<Rightarrow> string \<Rightarrow> vm list \<Rightarrow> migration list \<Rightarrow> (string \<times> int) list" where
  "adjusted_host_group_counts cs vm_prefix vms_in_group planned =
     fold (adjust_for_plan cs vm_prefix) planned
       (fold (base_count_vm cs) vms_in_group (zero_counts (cs_hosts cs)))"

text \<open>
  \<^verbatim>\<open>get_preferred_host_for_vm\<close>. It may regroup the VMs
  (\<^verbatim>\<open>enforce_anti_affinity\<close>), so it returns the manager too.
\<close>

definition get_preferred_host_for_vm ::
  "cluster_state \<Rightarrow> constraint_manager \<Rightarrow> vm \<Rightarrow> migration list \<Rightarrow> host option \<times> constraint_manager" where
  "get_preferred_host_for_vm cs cm vm_to_move planned =
     (if length (vm_name vm_to_move) < 3 then (None, cm)
      else
        (let vm_prefix = get_vm_prefix (vm_name vm_to_move);
             cm1 = (if vm_distribution cm = [] then enforce_anti_affinity cs cm else cm)
         in if vm_distribution cm1 = [] then (None, cm1)
            else
              (case map_of (vm_distribution cm1) vm_prefix of
                 None \<Rightarrow> (None, cm1)
               | Some vms_in_group \<Rightarrow>
                   if vms_in_group = [] then (None, cm1)
                   else
                     (case get_host_of_vm cs vm_to_move of
                        None \<Rightarrow> (None, cm1)
                      | Some source_host \<Rightarrow>
                          if cs_hosts cs = [] \<or> length (cs_hosts cs) \<le> 1 then (None, cm1)
                          else
                            (let counts = adjusted_host_group_counts cs vm_prefix vms_in_group planned
                             in (case find_perfect_balance_host counts (host_name source_host) (cs_hosts cs) of
                                   Some best \<Rightarrow> (Some best, cm1)
                                 | None \<Rightarrow>
                                     (find_better_than_source_host counts (host_name source_host)
                                        (dict_get counts (host_name source_host) 0) (cs_hosts cs),
                                      cm1)))))))"

section \<open>LoadEvaluator\<close>

text \<open>
  Errors are values: a Python exception is the left summand of the result. Within the
  model's numbers the only exception the planner's arithmetic can raise is the division
  by zero: \<^verbatim>\<open>a / b\<close> raises when \<open>b\<close> is zero and is the arithmetic's quotient
  otherwise (\<open>truediv\<close>). Every division of the source is modelled by \<open>truediv\<close>,
  also behind a test of the divisor, so that never raising is a statement about the
  model; the functions that can only divide by a tested or constant divisor return the
  value (\<open>guarded_div\<close>, justified by the lemma \<open>guarded_div_truediv\<close>).
\<close>

datatype py_error = ZeroDivisionError

definition truediv :: "arith \<Rightarrow> real \<Rightarrow> real \<Rightarrow> py_error + real" where
  "truediv ar a b = (if b = 0 then Inl ZeroDivisionError else Inr (fl_div ar a b))"

text \<open>The value of \<^verbatim>\<open>a / b\<close> where the source has made sure that \<open>b\<close> is not zero.\<close>

definition guarded_div :: "arith \<Rightarrow> real \<Rightarrow> real \<Rightarrow> real" where
  "guarded_div ar a b = (case truediv ar a b of Inr q \<Rightarrow> q | Inl e \<Rightarrow> 0)"

definition bind_err :: "'e + 'a \<Rightarrow> ('a \<Rightarrow> 'e + 'b) \<Rightarrow> 'e + 'b" where
  "bind_err m f = (case m of Inl e \<Rightarrow> Inl e | Inr x \<Rightarrow> f x)"

text \<open>
  An entry of the evaluator's \<^verbatim>\<open>hosts\<close> list is a dictionary with the key
  \<^verbatim>\<open>'name'\<close> and the numeric keys \<^verbatim>\<open>'cpu_usage'\<close>, \<^verbatim>\<open>'cpu_capacity'\<close>, ...
  A missing name and an empty name are both falsy and treated alike by every reader, so
  the empty string stands for both.
\<close>

record host_data =
  hd_name :: string
  hd_metrics :: metrics

type_synonym percentage_lists = "real list \<times> real list \<times> real list \<times> real list"

record load_evaluator =
  le_hosts :: "host_data list"
  le_cache :: "percentage_lists option"

text \<open>\<^verbatim>\<open>(usage / capacity * 100.0) if capacity > 0 else 0.0\<close>.\<close>

definition usage_percentage :: "arith \<Rightarrow> real \<Rightarrow> real \<Rightarrow> py_error + real" where
  "usage_percentage ar usage capacity =
     (if capacity > 0 then bind_err (truediv ar usage capacity) (\<lambda>q. Inr (fl_mul ar q 100))
      else Inr 0)"

text \<open>The body of the loop over the hosts: the four percentages of one host.\<close>

definition host_percentages ::
  "arith \<Rightarrow> host_data \<Rightarrow> py_error + (real \<times> real \<times> real \<times> real)" where
  "host_percentages ar host_data' =
     (let m = hd_metrics host_data' in
      bind_err (usage_percentage ar (dict_get m ''cpu_usage'' 0) (dict_get m ''cpu_capacity'' 0))
        (\<lambda>cpu_perc.
      bind_err (usage_percentage ar (dict_get m ''memory_usage'' 0) (dict_get m ''memory_capacity'' 0))
        (\<lambda>mem_perc.
      bind_err (usage_percentage ar (dict_get m ''disk_io_usage'' 0) (dict_get m ''disk_io_capacity'' 0))
        (\<lambda>disk_perc.
      bind_err (usage_percentage ar (dict_get m ''network_io_usage'' 0) (dict_get m ''network_capacity'' 0))
        (\<lambda>net_perc. Inr (cpu_perc, mem_perc, disk_perc, net_perc))))))"

fun percentage_loop ::
  "arith \<Rightarrow> host_data list \<Rightarrow> percentage_lists \<Rightarrow> py_error + percentage_lists" where
  "percentage_loop ar [] acc = Inr acc"
| "percentage_loop ar (h # hs) (cpu, mem, disk, net) =
     bind_err (host_percentages ar h)
       (\<lambda>(cpu_perc, mem_perc, disk_perc, net_perc).
          percentage_loop ar hs (cpu @ [cpu_perc], mem @ [mem_perc], disk @ [disk_perc], net @ [net_perc]))"

text \<open>\<^verbatim>\<open>get_resource_percentage_lists\<close>: the memoised quartet of percentage lists.\<close>

definition get_resource_percentage_lists ::
  "arith \<Rightarrow> load_evaluator \<Rightarrow> py_error + (percentage_lists \<times> load_evaluator)" where
  "get_resource_percentage_lists ar le =
     (case le_cache le of
        Some cached \<Rightarrow> Inr (cached, le)
      | None \<Rightarrow>
          if le_hosts le = [] then Inr (([], [], [], []), le\<lparr>le_cache := Some ([], [], [], [])\<rparr>)
          else bind_err (percentage_loop ar (le_hosts le) ([], [], [], []))
                 (\<lambda>r. Inr (r, le\<lparr>le_cache := Some r\<rparr>)))"

text \<open>\<^verbatim>\<open>get_thresholds\<close>.\<close>

definition threshold_value :: "int \<Rightarrow> real" where
  "threshold_value aggressiveness' =
     (if aggressiveness' = 5 then 5 else if aggressiveness' = 4 then 10
      else if aggressiveness' = 3 then 15 else if aggressiveness' = 2 then 20
      else if aggressiveness' = 1 then 25 else 15)"

definition get_thresholds :: "int \<Rightarrow> (string \<times> real) list" where
  "get_thresholds aggressiveness' =
     [(''cpu'', threshold_value aggressiveness'), (''memory'', threshold_value aggressiveness'),
      (''disk'', threshold_value aggressiveness'), (''network'', threshold_value aggressiveness')]"

text \<open>Rounding to the nearest hundredth, a tie to the even one: \<^verbatim>\<open>round(x, 2)\<close>
  without the rounding to a double (the \<open>fl_round2\<close> of the arithmetic \<open>exact_arith\<close>
  below).\<close>

definition round_half_even :: "real \<Rightarrow> int" where
  "round_half_even x =
     (let f = \<lfloor>x\<rfloor>; r = x - of_int f
      in if r < 1 / 2 then f else if r > 1 / 2 then f + 1 else if even f then f else f + 1)"

definition py_round2 :: "real \<Rightarrow> real" where
  "py_round2 x = of_int (round_half_even (x * 100)) / 100"

record imbalance_detail =
  is_imbalanced :: bool
  current_diff :: real
  threshold :: real
  min_usage :: real
  max_usage :: real
  avg_usage :: real
  all_percentages :: "real list"

text \<open>The body of the loop of \<^verbatim>\<open>evaluate_imbalance\<close>: the report on one resource.\<close>

definition evaluate_resource ::
  "arith \<Rightarrow> (string \<times> real list) list \<Rightarrow> (string \<times> real) list \<Rightarrow> string
     \<Rightarrow> imbalance_detail" where
  "evaluate_resource ar all_metrics_data allowed_thresholds resource_name =
     (let percentages = dict_get all_metrics_data resource_name []
      in (case map_of allowed_thresholds resource_name of
            None \<Rightarrow>
              \<lparr>is_imbalanced = False, current_diff = 0, threshold = 0, min_usage = 0,
               max_usage = 0, avg_usage = 0, all_percentages = []\<rparr>
          | Some resource_threshold \<Rightarrow>
              if percentages = [] \<or> length percentages < 2
              then \<lparr>is_imbalanced = False, current_diff = 0, threshold = resource_threshold,
                    min_usage = 0, max_usage = 0, avg_usage = 0, all_percentages = percentages\<rparr>
              else
                (let current_min_usage = py_min percentages;
                     current_max_usage = py_max percentages;
                     current_avg_usage =
                       guarded_div ar (fold (\<lambda>p total. fl_add ar total p) percentages 0)
                         (real (length percentages));
                     current_diff' = fl_sub ar current_max_usage current_min_usage
                 in \<lparr>is_imbalanced = (current_diff' > resource_threshold),
                      current_diff = fl_round2 ar current_diff',
                      threshold = resource_threshold,
                      min_usage = fl_round2 ar current_min_usage,
                      max_usage = fl_round2 ar current_max_usage,
                      avg_usage = fl_round2 ar current_avg_usage,
                      all_percentages = map (fl_round2 ar) percentages\<rparr>)))"

type_synonym overrides =
  "real list option \<times> real list option \<times> real list option \<times> real list option"

text \<open>\<^verbatim>\<open>evaluate_imbalance\<close>: the overrides replace the evaluator's own lists only when
  all four are given.\<close>

definition evaluate_imbalance ::
  "arith \<Rightarrow> load_evaluator \<Rightarrow> string list option \<Rightarrow> int \<Rightarrow> overrides
     \<Rightarrow> py_error + ((string \<times> imbalance_detail) list \<times> load_evaluator)" where
  "evaluate_imbalance ar le metrics_to_check aggressiveness' ov =
     bind_err
       (case ov of
          (Some cpu, Some mem, Some disk, Some net) \<Rightarrow> Inr ((cpu, mem, disk, net), le)
        | _ \<Rightarrow> get_resource_percentage_lists ar le)
       (\<lambda>((cpu_percentages, mem_percentages, disk_percentages, net_percentages), le').
          (let all_metrics_data =
                 [(''cpu'', cpu_percentages), (''memory'', mem_percentages),
                  (''disk'', disk_percentages), (''network'', net_percentages)];
               metrics = (case metrics_to_check of
                            None \<Rightarrow> [''cpu'', ''memory'', ''disk'', ''network'']
                          | Some ms \<Rightarrow> ms);
               allowed_thresholds = get_thresholds aggressiveness'
           in Inr (fold (\<lambda>resource_name results.
                           AList.update resource_name
                             (evaluate_resource ar all_metrics_data allowed_thresholds resource_name)
                             results)
                     metrics [],
                   le')))"

text \<open>\<^verbatim>\<open>is_balanced\<close>.\<close>

definition is_balanced ::
  "arith \<Rightarrow> load_evaluator \<Rightarrow> string list option \<Rightarrow> int \<Rightarrow> overrides
     \<Rightarrow> py_error + (bool \<times> load_evaluator)" where
  "is_balanced ar le metrics aggressiveness' ov =
     bind_err (evaluate_imbalance ar le metrics aggressiveness' ov)
       (\<lambda>(imbalance_details, le').
          Inr (list_all (\<lambda>(resource_name, details). \<not> is_imbalanced details) imbalance_details, le'))"

text \<open>The decimal digits of a natural number, for the placeholder names.\<close>

fun string_of_nat :: "nat \<Rightarrow> string" where
  "string_of_nat n =
     (if n < 10 then [char_of (48 + n)] else string_of_nat (n div 10) @ [char_of (48 + n mod 10)])"

record pct_entry =
  pe_cpu :: real
  pe_memory :: real
  pe_disk :: real
  pe_network :: real

text \<open>Reading an entry of the percentage map as the dictionary it is:
  \<^verbatim>\<open>entry.get(resource)\<close>.\<close>

definition pct_lookup :: "pct_entry \<Rightarrow> string \<Rightarrow> real option" where
  "pct_lookup e resource =
     (if resource = ''cpu'' then Some (pe_cpu e)
      else if resource = ''memory'' then Some (pe_memory e)
      else if resource = ''disk'' then Some (pe_disk e)
      else if resource = ''network'' then Some (pe_network e)
      else None)"

definition evaluator_host_names :: "host_data list \<Rightarrow> string list" where
  "evaluator_host_names hs =
     map (\<lambda>(i, host_data'). if hd_name host_data' \<noteq> [] then hd_name host_data'
                             else ''unknown_host_'' @ string_of_nat i)
       (enumerate 0 hs)"

text \<open>\<^verbatim>\<open>get_all_host_resource_percentages_map\<close>.\<close>

definition get_all_host_resource_percentages_map ::
  "arith \<Rightarrow> load_evaluator \<Rightarrow> py_error + ((string \<times> pct_entry) list \<times> load_evaluator)" where
  "get_all_host_resource_percentages_map ar le =
     bind_err (get_resource_percentage_lists ar le)
       (\<lambda>((cpu_p, mem_p, disk_p, net_p), le').
          Inr (fold (\<lambda>(i, hn) result_map.
                       AList.update hn
                         (if i < length cpu_p \<and> i < length mem_p \<and> i < length disk_p \<and> i < length net_p
                          then \<lparr>pe_cpu = cpu_p ! i, pe_memory = mem_p ! i,
                                pe_disk = disk_p ! i, pe_network = net_p ! i\<rparr>
                          else \<lparr>pe_cpu = 0, pe_memory = 0, pe_disk = 0, pe_network = 0\<rparr>)
                         result_map)
                 (enumerate 0 (evaluator_host_names (le_hosts le))) [],
               le'))"

section \<open>MigrationManager\<close>

text \<open>
  The planner object: its collaborators and its configuration. The methods that change
  the constraint manager (regrouping, the violation list) or the evaluator (its cache)
  return the planner with the changed collaborator.
\<close>

record migration_manager =
  mm_cluster_state :: cluster_state
  mm_constraint_manager :: constraint_manager
  mm_load_evaluator :: load_evaluator
  aggressiveness :: int
  max_total_migrations :: int
  ignore_anti_affinity :: bool
  anti_affinity_only :: bool

subsection \<open>Simulation of planned moves\<close>

record abs_load =
  cpu_usage_abs :: real
  mem_usage_abs :: real
  cpu_cap_abs :: real
  mem_cap_abs :: real

definition initial_absolute_loads :: "cluster_state \<Rightarrow> (string \<times> abs_load) list" where
  "initial_absolute_loads cs =
     fold (\<lambda>host_obj loads.
             (let host_metrics_from_cs = dict_get (cs_host_metrics cs) (host_name host_obj) []
              in AList.update (host_name host_obj)
                   \<lparr>cpu_usage_abs = dict_get host_metrics_from_cs ''cpu_usage'' 0,
                    mem_usage_abs = dict_get host_metrics_from_cs ''memory_usage'' 0,
                    cpu_cap_abs = dict_get host_metrics_from_cs ''cpu_capacity'' 1,
                    mem_cap_abs = dict_get host_metrics_from_cs ''memory_capacity'' 1\<rparr>
                   loads))
       (cs_hosts cs) []"

text \<open>One simulated move: the VM's CPU and memory usage leaves its current host (when
  that host has a non-empty name and is known) and arrives at the target (when known).\<close>

definition simulate_migration ::
  "arith \<Rightarrow> cluster_state \<Rightarrow> migration \<Rightarrow> (string \<times> abs_load) list
     \<Rightarrow> (string \<times> abs_load) list" where
  "simulate_migration ar cs mig_plan loads =
     (let vm_obj = mig_vm mig_plan;
          target_host_name = host_name (mig_target_host mig_plan);
          vm_res_metrics = dict_get (cs_vm_metrics cs) (vm_name vm_obj) [];
          vm_cpu_abs = dict_get vm_res_metrics ''cpu_usage_abs'' 0;
          vm_mem_abs = dict_get vm_res_metrics ''memory_usage_abs'' 0;
          l1 = (case get_host_of_vm cs vm_obj of
                  None \<Rightarrow> loads
                | Some source_host_obj \<Rightarrow>
                    if host_name source_host_obj = [] then loads
                    else (case map_of loads (host_name source_host_obj) of
                            None \<Rightarrow> loads
                          | Some l \<Rightarrow>
                              AList.update (host_name source_host_obj)
                                (l\<lparr>cpu_usage_abs := fl_sub ar (cpu_usage_abs l) vm_cpu_abs,
                                   mem_usage_abs := fl_sub ar (mem_usage_abs l) vm_mem_abs\<rparr>)
                                loads))
      in (case map_of l1 target_host_name of
            None \<Rightarrow> l1
          | Some l \<Rightarrow>
              AList.update target_host_name
                (l\<lparr>cpu_usage_abs := fl_add ar (cpu_usage_abs l) vm_cpu_abs,
                   mem_usage_abs := fl_add ar (mem_usage_abs l) vm_mem_abs\<rparr>)
                l1))"

text \<open>The entry of the simulated map for the host at position \<open>i\<close> of the evaluator's
  order: CPU and memory from the simulated loads, disk and network from the evaluator's
  lists at the same position.\<close>

definition simulated_entry ::
  "arith \<Rightarrow> (string \<times> abs_load) list \<Rightarrow> real list \<Rightarrow> real list \<Rightarrow> nat \<Rightarrow> string
     \<Rightarrow> pct_entry" where
  "simulated_entry ar loads orig_disk_percentages orig_net_percentages i host_name' =
     (let cpu_p = (case map_of loads host_name' of
                     None \<Rightarrow> 0
                   | Some sim_loads \<Rightarrow>
                       if cpu_cap_abs sim_loads > 0
                       then fl_mul ar (guarded_div ar (cpu_usage_abs sim_loads) (cpu_cap_abs sim_loads)) 100
                       else 0);
          mem_p = (case map_of loads host_name' of
                     None \<Rightarrow> 0
                   | Some sim_loads \<Rightarrow>
                       if mem_cap_abs sim_loads > 0
                       then fl_mul ar (guarded_div ar (mem_usage_abs sim_loads) (mem_cap_abs sim_loads)) 100
                       else 0);
          disk_p = (if i < length orig_disk_percentages then orig_disk_percentages ! i else 0);
          net_p = (if i < length orig_net_percentages then orig_net_percentages ! i else 0)
      in \<lparr>pe_cpu = cpu_p, pe_memory = mem_p, pe_disk = disk_p, pe_network = net_p\<rparr>)"

text \<open>The names the simulation iterates over: the non-empty names of the evaluator's
  hosts, or the names of the cluster's hosts when there is none.\<close>

definition simulation_host_names :: "cluster_state \<Rightarrow> load_evaluator \<Rightarrow> string list" where
  "simulation_host_names cs le =
     (let host_names_from_evaluator = filter (\<lambda>n. n \<noteq> []) (map hd_name (le_hosts le))
      in if host_names_from_evaluator = [] \<and> cs_hosts cs \<noteq> [] then map host_name (cs_hosts cs)
         else host_names_from_evaluator)"

text \<open>\<^verbatim>\<open>_get_simulated_load_data_after_migrations\<close>.\<close>

definition get_simulated_load_data_after_migrations ::
  "arith \<Rightarrow> migration_manager \<Rightarrow> migration list
     \<Rightarrow> py_error + ((real list \<times> real list \<times> real list \<times> real list \<times> (string \<times> pct_entry) list)
                     \<times> migration_manager)" where
  "get_simulated_load_data_after_migrations ar mm migrations_to_simulate =
     (let cs = mm_cluster_state mm
      in if cs_hosts cs = [] then Inr (([], [], [], [], []), mm)
         else
           (let loads = fold (simulate_migration ar cs) migrations_to_simulate
                          (initial_absolute_loads cs)
            in bind_err (get_resource_percentage_lists ar (mm_load_evaluator mm))
                 (\<lambda>((cpu0, mem0, orig_disk_percentages, orig_net_percentages), le').
                    (let entries =
                           map (\<lambda>(i, hn). (hn, simulated_entry ar loads orig_disk_percentages
                                                   orig_net_percentages i hn))
                             (enumerate 0 (simulation_host_names cs (mm_load_evaluator mm)))
                     in Inr ((map (\<lambda>(hn, e). pe_cpu e) entries,
                              map (\<lambda>(hn, e). pe_memory e) entries,
                              orig_disk_percentages, orig_net_percentages,
                              fold (\<lambda>(hn, e) m. AList.update hn e m) entries []),
                             mm\<lparr>mm_load_evaluator := le'\<rparr>)))))"

subsection \<open>The anti-affinity safety check\<close>

text \<open>\<^verbatim>\<open>vm_to_move.name[:-2]\<close>, the key under which the safety check looks the group
  up.\<close>

definition safety_check_prefix :: "string \<Rightarrow> string" where
  "safety_check_prefix vm_name' = py_take (- 2) vm_name'"

definition planned_vm_locations :: "migration list \<Rightarrow> (string \<times> string) list" where
  "planned_vm_locations planned =
     fold (\<lambda>plan locs. AList.update (vm_name (mig_vm plan)) (host_name (mig_target_host plan)) locs)
       planned []"

text \<open>Where a VM of the group ends up: the VM that is checked on the target, a VM with
  a planned move on its planned target, any other VM on its current host.\<close>

definition final_host_name ::
  "cluster_state \<Rightarrow> vm \<Rightarrow> host \<Rightarrow> (string \<times> string) list \<Rightarrow> vm \<Rightarrow> string option" where
  "final_host_name cs vm_to_move target_host_obj locs vm_in_group =
     (if vm_name vm_in_group = vm_name vm_to_move then Some (host_name target_host_obj)
      else (case map_of locs (vm_name vm_in_group) of
              Some planned_target \<Rightarrow> Some planned_target
            | None \<Rightarrow> map_option host_name (get_host_of_vm cs vm_in_group)))"

definition simulated_count_vm ::
  "cluster_state \<Rightarrow> vm \<Rightarrow> host \<Rightarrow> (string \<times> string) list \<Rightarrow> vm
     \<Rightarrow> (string \<times> int) list \<Rightarrow> (string \<times> int) list" where
  "simulated_count_vm cs vm_to_move target_host_obj locs vm_in_group counts =
     (case final_host_name cs vm_to_move target_host_obj locs vm_in_group of
        None \<Rightarrow> counts
      | Some n \<Rightarrow>
          if n = [] then counts
          else (case map_of counts n of
                  None \<Rightarrow> counts
                | Some c \<Rightarrow> AList.update n (c + 1) counts))"

text \<open>The body of \<^verbatim>\<open>_is_anti_affinity_safe\<close> after the key \<^verbatim>\<open>vm_prefix\<close> has been
  computed.\<close>

definition anti_affinity_safe_for_prefix ::
  "cluster_state \<Rightarrow> constraint_manager \<Rightarrow> string \<Rightarrow> vm \<Rightarrow> host \<Rightarrow> migration list \<Rightarrow> bool" where
  "anti_affinity_safe_for_prefix cs cm vm_prefix vm_to_move target_host_obj planned =
     (let vms_in_group = dict_get (vm_distribution cm) vm_prefix []
      in if vms_in_group = [] then True
         else if cs_hosts cs = [] \<or> length (cs_hosts cs) \<le> 1 then True
         else
           (let simulated_host_vm_counts =
                  fold (simulated_count_vm cs vm_to_move target_host_obj (planned_vm_locations planned))
                    vms_in_group (zero_counts (cs_hosts cs));
                counts = map snd (filter (\<lambda>(host_name', count). get_host_by_name cs host_name' \<noteq> None)
                                    simulated_host_vm_counts)
            in if counts = [] then True else py_max counts - py_min counts \<le> 1))"

text \<open>\<^verbatim>\<open>_is_anti_affinity_safe\<close>.\<close>

definition is_anti_affinity_safe ::
  "migration_manager \<Rightarrow> vm \<Rightarrow> host \<Rightarrow> migration list \<Rightarrow> bool \<times> migration_manager" where
  "is_anti_affinity_safe mm vm_to_move target_host_obj planned =
     (let cs = mm_cluster_state mm;
          cm = mm_constraint_manager mm;
          cm1 = (if vm_distribution cm = [] then enforce_anti_affinity cs cm else cm)
      in (anti_affinity_safe_for_prefix cs cm1 (safety_check_prefix (vm_name vm_to_move))
            vm_to_move target_host_obj planned,
          mm\<lparr>mm_constraint_manager := cm1\<rparr>))"

subsection \<open>Fit checks\<close>

text \<open>
  \<^verbatim>\<open>_would_fit_on_host\<close> and \<^verbatim>\<open>_would_fit_on_host_soft\<close> have the same body up to the
  two ceilings: 90 and 90 in the first, the parameters in the second. A missing or
  empty metrics dictionary of the VM or of the host rejects the move.
\<close>

definition fit_check :: "arith \<Rightarrow> cluster_state \<Rightarrow> vm \<Rightarrow> host \<Rightarrow> real \<Rightarrow> real \<Rightarrow> bool" where
  "fit_check ar cs v host_obj max_cpu max_mem =
     (let vm_metrics' = dict_get (cs_vm_metrics cs) (vm_name v) [];
          host_current_metrics = dict_get (cs_host_metrics cs) (host_name host_obj) []
      in if vm_metrics' = [] \<or> host_current_metrics = [] then False
         else
           (let vm_cpu_req = dict_get vm_metrics' ''cpu_usage_abs'' (dict_get vm_metrics' ''cpu_allocation'' 0);
                vm_mem_req = dict_get vm_metrics' ''memory_usage_abs''
                               (dict_get vm_metrics' ''memory_allocation_bytes'' 0);
                host_cpu_cap = dict_get host_current_metrics ''cpu_capacity'' 1;
                host_mem_cap = dict_get host_current_metrics ''memory_capacity'' 1;
                host_cpu_curr = dict_get host_current_metrics ''cpu_usage'' 0;
                host_mem_curr = dict_get host_current_metrics ''memory_usage_abs'' 0;
                projected_cpu_abs = fl_add ar host_cpu_curr vm_cpu_req;
                projected_mem_abs = fl_add ar host_mem_curr vm_mem_req;
                projected_cpu_pct =
                  (if host_cpu_cap > 0
                   then fl_mul ar (guarded_div ar projected_cpu_abs host_cpu_cap) 100 else 100);
                projected_mem_pct =
                  (if host_mem_cap > 0
                   then fl_mul ar (guarded_div ar projected_mem_abs host_mem_cap) 100 else 100)
            in if projected_cpu_pct > max_cpu then False
               else if projected_mem_pct > max_mem then False
               else True))"

definition would_fit_on_host :: "arith \<Rightarrow> cluster_state \<Rightarrow> vm \<Rightarrow> host \<Rightarrow> bool" where
  "would_fit_on_host ar cs v host_obj = fit_check ar cs v host_obj 90 90"

definition would_fit_on_host_soft ::
  "arith \<Rightarrow> cluster_state \<Rightarrow> vm \<Rightarrow> host \<Rightarrow> real \<Rightarrow> real \<Rightarrow> bool" where
  "would_fit_on_host_soft ar cs v host_obj cpu_threshold mem_threshold =
     fit_check ar cs v host_obj cpu_threshold mem_threshold"

subsection \<open>The balancing pass\<close>

definition vm_sort_key :: "arith \<Rightarrow> cluster_state \<Rightarrow> string option \<Rightarrow> vm \<Rightarrow> real" where
  "vm_sort_key ar cs imbalanced_resource v =
     (let metrics' = dict_get (cs_vm_metrics cs) (vm_name v) []
      in if metrics' = [] then 0
         else if imbalanced_resource = Some ''cpu'' then dict_get metrics' ''cpu_usage_abs'' 0
         else if imbalanced_resource = Some ''memory'' then dict_get metrics' ''memory_usage_abs'' 0
         else fl_add ar (dict_get metrics' ''cpu_usage_abs'' 0)
                (dict_get metrics' ''memory_usage_abs'' 0))"

text \<open>\<^verbatim>\<open>_select_vms_to_move\<close>: the VMs of the host that are not planned yet and are no
  templates, by descending key (the sort is stable), cut to \<^verbatim>\<open>aggressiveness\<close>.\<close>

definition select_vms_to_move ::
  "arith \<Rightarrow> migration_manager \<Rightarrow> host \<Rightarrow> string option \<Rightarrow> string set \<Rightarrow> vm list" where
  "select_vms_to_move ar mm source_host_obj imbalanced_resource vms_already_in_plan =
     (let cs = mm_cluster_state mm;
          vms_on_host = get_vms_on_host cs source_host_obj
      in if vms_on_host = [] then []
         else
           (let candidate_vms =
                  filter (\<lambda>v. vm_name v \<notin> vms_already_in_plan \<and> \<not> vm_template v) vms_on_host
            in py_take (aggressiveness mm)
                 (sort_key (\<lambda>v. - vm_sort_key ar cs imbalanced_resource v) candidate_vms)))"

definition balancing_score ::
  "arith \<Rightarrow> (string \<times> imbalance_detail) list \<Rightarrow> pct_entry \<Rightarrow> real" where
  "balancing_score ar imbalanced_resources_details target_metrics_pct =
     fold (\<lambda>(resource, detail) score.
             case pct_lookup target_metrics_pct resource of
               Some p \<Rightarrow> fl_add ar score (fl_sub ar 100 p)
             | None \<Rightarrow> score)
       imbalanced_resources_details 0"

text \<open>The body of the loop of \<^verbatim>\<open>_find_better_host_for_balancing\<close>: the score of a
  target that passes every check, \<open>None\<close> for a target that is skipped.\<close>

definition evaluate_balancing_target ::
  "arith \<Rightarrow> migration_manager \<Rightarrow> vm \<Rightarrow> host \<Rightarrow> pct_entry \<Rightarrow> string option
     \<Rightarrow> (string \<times> imbalance_detail) list \<Rightarrow> (string \<times> pct_entry) list \<Rightarrow> migration list \<Rightarrow> host
     \<Rightarrow> real option \<times> migration_manager" where
  "evaluate_balancing_target ar mm vm_to_move source_host_obj source_host_metrics_pct
       primary_imbalanced_resource imbalanced_resources_details host_resource_percentages_map
       planned target_host_obj =
     (if host_name target_host_obj = host_name source_host_obj then (None, mm)
      else if \<not> would_fit_on_host ar (mm_cluster_state mm) vm_to_move target_host_obj
      then (None, mm)
      else
        (case (if \<not> ignore_anti_affinity mm
               then is_anti_affinity_safe mm vm_to_move target_host_obj planned
               else (True, mm)) of
           (aa_safe, mm1) \<Rightarrow>
             if \<not> aa_safe then (None, mm1)
             else
               (case map_of host_resource_percentages_map (host_name target_host_obj) of
                  None \<Rightarrow> (None, mm1)
                | Some target_metrics_pct \<Rightarrow>
                    if (case primary_imbalanced_resource of
                          None \<Rightarrow> False
                        | Some primary \<Rightarrow>
                            primary \<noteq> [] \<and>
                            (case (pct_lookup target_metrics_pct primary,
                                   pct_lookup source_host_metrics_pct primary) of
                               (Some target_usage, Some source_usage) \<Rightarrow>
                                 \<not> (target_usage <
                                      fl_sub ar source_usage
                                        (guarded_div ar
                                           (dict_get (get_thresholds (aggressiveness mm1)) primary 15)
                                           3))
                             | _ \<Rightarrow> False))
                    then (None, mm1)
                    else
                      (let score = balancing_score ar imbalanced_resources_details target_metrics_pct
                       in if score > 0 then (Some score, mm1) else (None, mm1)))))"

fun balancing_targets_loop ::
  "arith \<Rightarrow> vm \<Rightarrow> host \<Rightarrow> pct_entry \<Rightarrow> string option \<Rightarrow> (string \<times> imbalance_detail) list
     \<Rightarrow> (string \<times> pct_entry) list \<Rightarrow> migration list \<Rightarrow> host list
     \<Rightarrow> (host \<times> real) list \<Rightarrow> migration_manager \<Rightarrow> (host \<times> real) list \<times> migration_manager" where
  "balancing_targets_loop ar v src spct prim det pmap planned [] potential_targets mm =
     (potential_targets, mm)"
| "balancing_targets_loop ar v src spct prim det pmap planned (t # ts) potential_targets mm =
     (case evaluate_balancing_target ar mm v src spct prim det pmap planned t of
        (None, mm1) \<Rightarrow>
          balancing_targets_loop ar v src spct prim det pmap planned ts potential_targets mm1
      | (Some score, mm1) \<Rightarrow>
          balancing_targets_loop ar v src spct prim det pmap planned ts
            (potential_targets @ [(t, score)]) mm1)"

text \<open>\<^verbatim>\<open>_find_better_host_for_balancing\<close>: the first target of the highest score.\<close>

definition find_better_host_for_balancing ::
  "arith \<Rightarrow> migration_manager \<Rightarrow> vm \<Rightarrow> host \<Rightarrow> pct_entry \<Rightarrow> string option \<Rightarrow> host list
     \<Rightarrow> (string \<times> imbalance_detail) list \<Rightarrow> (string \<times> pct_entry) list \<Rightarrow> migration list
     \<Rightarrow> host option \<times> migration_manager" where
  "find_better_host_for_balancing ar mm vm_to_move source_host_obj source_host_metrics_pct
       primary_imbalanced_resource all_hosts imbalanced_resources_details
       host_resource_percentages_map planned =
     (case balancing_targets_loop ar vm_to_move source_host_obj source_host_metrics_pct
             primary_imbalanced_resource imbalanced_resources_details host_resource_percentages_map
             planned all_hosts [] mm of
        (potential_targets, mm1) \<Rightarrow>
          (case sort_key (\<lambda>(h, score). - score) potential_targets of
             [] \<Rightarrow> (None, mm1)
           | best # rest \<Rightarrow> (Some (fst best), mm1)))"

text \<open>
  The loop over the problematic resources that decides whether a host is a source: the
  state is \<^verbatim>\<open>host_is_max_usage_contributor\<close>, \<^verbatim>\<open>move_reason_details\<close> (kept as the
  resource names) and \<^verbatim>\<open>resource_hint_for_vm_selection\<close>.
\<close>

definition source_check_resource ::
  "arith \<Rightarrow> migration_manager \<Rightarrow> (string \<times> imbalance_detail) list \<Rightarrow> pct_entry \<Rightarrow> string
     \<Rightarrow> bool \<times> string list \<times> string option \<Rightarrow> bool \<times> string list \<times> string option" where
  "source_check_resource ar mm imbalance_details source_host_metrics_pct res_name st =
     (case st of (contributor, move_reason_details, resource_hint) \<Rightarrow>
        (let current_host_usage_for_res =
               (case pct_lookup source_host_metrics_pct res_name of None \<Rightarrow> 0 | Some u \<Rightarrow> u);
             avg_usage_for_res =
               (case map_of imbalance_details res_name of None \<Rightarrow> 0 | Some d \<Rightarrow> avg_usage d);
             max_usage_for_res =
               (case map_of imbalance_details res_name of
                  None \<Rightarrow> fl_add ar current_host_usage_for_res 1
                | Some d \<Rightarrow> max_usage d);
             threshold_for_res = dict_get (get_thresholds (aggressiveness mm)) res_name 15;
             is_significantly_above_average =
               (current_host_usage_for_res >
                  fl_add ar avg_usage_for_res (guarded_div ar threshold_for_res 2));
             is_one_of_the_most_loaded =
               (current_host_usage_for_res \<ge> fl_mul ar max_usage_for_res (95 / 100))
         in if is_significantly_above_average \<and> is_one_of_the_most_loaded
               \<and> current_host_usage_for_res > 0
            then (True, move_reason_details @ [res_name],
                  (if resource_hint = None \<or> resource_hint = Some [] then Some res_name
                   else resource_hint))
            else st))"

text \<open>The loop over the VMs selected from one source host. The state: the balancing
  moves, the names of the planned VMs, the moves given to the safety check, the planner.\<close>

fun balancing_vms_loop ::
  "arith \<Rightarrow> host \<Rightarrow> pct_entry \<Rightarrow> string option \<Rightarrow> string list \<Rightarrow> (string \<times> imbalance_detail) list
     \<Rightarrow> string list \<Rightarrow> (string \<times> pct_entry) list \<Rightarrow> vm list
     \<Rightarrow> migration list \<times> string set \<times> migration list \<times> migration_manager
     \<Rightarrow> migration list \<times> string set \<times> migration list \<times> migration_manager" where
  "balancing_vms_loop ar src spct hint reasons imbalance_details problematic pmap [] st = st"
| "balancing_vms_loop ar src spct hint reasons imbalance_details problematic pmap (v # vs)
       (balancing_migrations, vms_in_migration_plan, safety_check_migrations_list, mm) =
     (let active_imbalance_details =
            filter (\<lambda>(k, d). k \<in> set problematic \<and> is_imbalanced d) imbalance_details
      in if active_imbalance_details = []
         then balancing_vms_loop ar src spct hint reasons imbalance_details problematic pmap vs
                (balancing_migrations, vms_in_migration_plan, safety_check_migrations_list, mm)
         else
           (case find_better_host_for_balancing ar mm v src spct hint (cs_hosts (mm_cluster_state mm))
                   active_imbalance_details pmap safety_check_migrations_list of
              (Some target_host_obj, mm1) \<Rightarrow>
                (let migration_details =
                       \<lparr>mig_vm = v, mig_target_host = target_host_obj,
                        mig_reason = ResourceBalancing reasons\<rparr>
                 in balancing_vms_loop ar src spct hint reasons imbalance_details problematic pmap vs
                      (balancing_migrations @ [migration_details],
                       insert (vm_name v) vms_in_migration_plan,
                       safety_check_migrations_list @ [migration_details], mm1))
            | (None, mm1) \<Rightarrow>
                balancing_vms_loop ar src spct hint reasons imbalance_details problematic pmap vs
                  (balancing_migrations, vms_in_migration_plan, safety_check_migrations_list, mm1)))"

text \<open>The body of the loop over the hosts as sources.\<close>

definition balancing_source_step ::
  "arith \<Rightarrow> (string \<times> imbalance_detail) list \<Rightarrow> string list \<Rightarrow> (string \<times> pct_entry) list \<Rightarrow> host
     \<Rightarrow> migration list \<times> string set \<times> migration list \<times> migration_manager
     \<Rightarrow> migration list \<times> string set \<times> migration list \<times> migration_manager" where
  "balancing_source_step ar imbalance_details problematic pmap source_host_obj st =
     (case st of (balancing_migrations, vms_in_migration_plan, safety_check_migrations_list, mm) \<Rightarrow>
        (case map_of pmap (host_name source_host_obj) of
           None \<Rightarrow> st
         | Some source_host_metrics_pct \<Rightarrow>
             (case fold (source_check_resource ar mm imbalance_details source_host_metrics_pct)
                     problematic (False, [], None) of
                (host_is_max_usage_contributor, move_reason_details, resource_hint) \<Rightarrow>
                  if \<not> host_is_max_usage_contributor then st
                  else
                    (let candidate_vms_to_move =
                           select_vms_to_move ar mm source_host_obj resource_hint vms_in_migration_plan
                     in if candidate_vms_to_move = [] then st
                        else balancing_vms_loop ar source_host_obj source_host_metrics_pct resource_hint
                               move_reason_details imbalance_details problematic pmap
                               candidate_vms_to_move st))))"

text \<open>\<^verbatim>\<open>_plan_balancing_migrations\<close>: returns the balancing moves, the names of the
  planned VMs (the set the caller passed is updated in place) and the planner.\<close>

definition plan_balancing_migrations ::
  "arith \<Rightarrow> migration_manager \<Rightarrow> string set \<Rightarrow> (string \<times> pct_entry) list \<Rightarrow> migration list \<Rightarrow> overrides
     \<Rightarrow> py_error + (migration list \<times> string set \<times> migration_manager)" where
  "plan_balancing_migrations ar mm vms_in_migration_plan host_resource_percentages_map_for_decision
       current_planned_migrations_list ov =
     bind_err (evaluate_imbalance ar (mm_load_evaluator mm) None (aggressiveness mm) ov)
       (\<lambda>(imbalance_details, le').
          (let mm0 = mm\<lparr>mm_load_evaluator := le'\<rparr>
           in if imbalance_details = [] then Inr ([], vms_in_migration_plan, mm0)
              else
                (let problematic_resources_names =
                       map fst (filter (\<lambda>(res, det). is_imbalanced det) imbalance_details)
                 in if problematic_resources_names = [] then Inr ([], vms_in_migration_plan, mm0)
                    else
                      (case fold (balancing_source_step ar imbalance_details problematic_resources_names
                                    host_resource_percentages_map_for_decision)
                              (cs_hosts (mm_cluster_state mm0))
                              ([], vms_in_migration_plan, current_planned_migrations_list, mm0) of
                         (balancing_migrations, names, safety_check_migrations_list, mm1) \<Rightarrow>
                           Inr (balancing_migrations, names, mm1)))))"

subsection \<open>The anti-affinity pass\<close>

text \<open>The body of the loop over the violators. The state: the moves planned in this
  pass, the names of the planned VMs, the planner.\<close>

definition plan_anti_affinity_step ::
  "arith \<Rightarrow> vm \<Rightarrow> migration list \<times> string set \<times> migration_manager
     \<Rightarrow> migration list \<times> string set \<times> migration_manager" where
  "plan_anti_affinity_step ar vm_obj st =
     (case st of (aa_migrations_planned_this_step, vms_in_migration_plan, mm) \<Rightarrow>
        if vm_name vm_obj \<in> vms_in_migration_plan then st
        else if vm_template vm_obj then st
        else
          (case get_preferred_host_for_vm (mm_cluster_state mm) (mm_constraint_manager mm) vm_obj
                  aa_migrations_planned_this_step of
             (None, cm1) \<Rightarrow>
               (aa_migrations_planned_this_step, vms_in_migration_plan,
                mm\<lparr>mm_constraint_manager := cm1\<rparr>)
           | (Some target_host_obj, cm1) \<Rightarrow>
               (let mm1 = mm\<lparr>mm_constraint_manager := cm1\<rparr>;
                    migration_plan = \<lparr>mig_vm = vm_obj, mig_target_host = target_host_obj,
                                      mig_reason = AntiAffinity\<rparr>
                in if anti_affinity_only mm1
                   then (aa_migrations_planned_this_step @ [migration_plan],
                         insert (vm_name vm_obj) vms_in_migration_plan, mm1)
                   else if would_fit_on_host_soft ar (mm_cluster_state mm1) vm_obj target_host_obj 95 95
                   then (aa_migrations_planned_this_step @ [migration_plan],
                         insert (vm_name vm_obj) vms_in_migration_plan, mm1)
                   else (aa_migrations_planned_this_step, vms_in_migration_plan, mm1))))"

text \<open>\<^verbatim>\<open>_plan_anti_affinity_migrations\<close>: the violation list is computed only when the
  manager holds none.\<close>

definition plan_anti_affinity_migrations ::
  "arith \<Rightarrow> migration_manager \<Rightarrow> string set \<Rightarrow> migration list \<times> string set \<times> migration_manager" where
  "plan_anti_affinity_migrations ar mm vms_in_migration_plan =
     (let cs = mm_cluster_state mm;
          cm = mm_constraint_manager mm;
          cm1 = (if violations cm = []
                 then (let cm' = enforce_anti_affinity cs cm
                       in cm'\<lparr>violations := calculate_anti_affinity_violations cs cm'\<rparr>)
                 else cm);
          mm1 = mm\<lparr>mm_constraint_manager := cm1\<rparr>
      in if violations cm1 = [] then ([], vms_in_migration_plan, mm1)
         else fold (plan_anti_affinity_step ar) (violations cm1) ([], vms_in_migration_plan, mm1))"

subsection \<open>The planning cycle\<close>

text \<open>The cut of \<^verbatim>\<open>plan_migrations\<close> to \<^verbatim>\<open>max_total_migrations\<close>.\<close>

definition limit_migrations :: "int \<Rightarrow> migration list \<Rightarrow> migration list" where
  "limit_migrations max_total migrations =
     (if int (length migrations) > max_total then
        (let aa_migs_from_plan = filter (\<lambda>m. mig_reason m = AntiAffinity) migrations;
             balance_migs_from_plan = filter (\<lambda>m. mig_reason m \<noteq> AntiAffinity) migrations
         in if int (length aa_migs_from_plan) \<ge> max_total then py_take max_total aa_migs_from_plan
            else
              (let remaining_slots = max_total - int (length aa_migs_from_plan)
               in if remaining_slots > 0 \<and> balance_migs_from_plan \<noteq> []
                  then aa_migs_from_plan @ py_take remaining_slots balance_migs_from_plan
                  else aa_migs_from_plan))
      else migrations)"

text \<open>The plan before the cut: the anti-affinity moves, then (unless
  \<^verbatim>\<open>anti_affinity_only\<close> is passed) the balancing moves, planned on the loads simulated
  after the anti-affinity moves.\<close>

definition plan_all_migrations ::
  "arith \<Rightarrow> migration_manager \<Rightarrow> bool \<Rightarrow> py_error + (migration list \<times> migration_manager)" where
  "plan_all_migrations ar mm anti_affinity_only' =
     (let mm0 = mm\<lparr>mm_load_evaluator := (mm_load_evaluator mm)\<lparr>le_cache := None\<rparr>\<rparr>
      in (case plan_anti_affinity_migrations ar mm0 {} of
            (anti_affinity_migrations, vms_in_migration_plan, mm1) \<Rightarrow>
              if \<not> anti_affinity_only' then
                bind_err (get_all_host_resource_percentages_map ar (mm_load_evaluator mm1))
                  (\<lambda>(initial_host_resource_percentages_map, le2).
                     (let mm2 = mm1\<lparr>mm_load_evaluator := le2\<rparr>
                      in bind_err
                           (if anti_affinity_migrations \<noteq> []
                            then bind_err (get_simulated_load_data_after_migrations ar mm2
                                             anti_affinity_migrations)
                                   (\<lambda>((sim_cpu, sim_mem, sim_disk, sim_net, simulated_load_map), mm3).
                                      Inr (simulated_load_map,
                                           (Some sim_cpu, Some sim_mem, Some sim_disk, Some sim_net),
                                           mm3))
                            else Inr (initial_host_resource_percentages_map,
                                      (None, None, None, None), mm2))
                           (\<lambda>(current_host_resource_percentages_map, ov, mm3).
                              bind_err (plan_balancing_migrations ar mm3 vms_in_migration_plan
                                          current_host_resource_percentages_map
                                          anti_affinity_migrations ov)
                                (\<lambda>(balancing_migrations, names, mm4).
                                   Inr (anti_affinity_migrations @ balancing_migrations, mm4)))))
              else Inr (anti_affinity_migrations, mm1)))"

text \<open>\<^verbatim>\<open>plan_migrations\<close>: the plan, cut to the limit, as pairs of a VM and its target.\<close>

definition plan_migrations ::
  "arith \<Rightarrow> migration_manager \<Rightarrow> bool \<Rightarrow> py_error + ((vm \<times> host) list \<times> migration_manager)" where
  "plan_migrations ar mm anti_affinity_only' =
     bind_err (plan_all_migrations ar mm anti_affinity_only')
       (\<lambda>(migrations, mm1).
          Inr (map (\<lambda>plan. (mig_vm plan, mig_target_host plan))
                 (limit_migrations (max_total_migrations mm1) migrations),
               mm1))"

subsection \<open>Iterative planning\<close>

text \<open>\<^verbatim>\<open>int(x)\<close> of a float: truncation towards zero.\<close>

definition py_int :: "real \<Rightarrow> int" where
  "py_int x = (if 0 \<le> x then \<lfloor>x\<rfloor> else \<lceil>x\<rceil>)"

text \<open>
  The aggressiveness a pass of \<^verbatim>\<open>plan_migrations_iterative\<close> runs with: from the second
  iteration on \<^verbatim>\<open>max(1, int(self.aggressiveness / iteration_threshold_multiplier))\<close>,
  where the division raises on a multiplier of zero.
\<close>

definition pass_aggressiveness :: "arith \<Rightarrow> int \<Rightarrow> real \<Rightarrow> int \<Rightarrow> py_error + int" where
  "pass_aggressiveness ar aggressiveness' iteration_threshold_multiplier iteration =
     (if iteration > 1
      then bind_err (truediv ar (real_of_int aggressiveness') iteration_threshold_multiplier)
             (\<lambda>q. Inr (max 1 (py_int q)))
      else Inr aggressiveness')"

text \<open>One pass of the loop after the convergence test: the aggressiveness is adjusted,
  the cycle is planned, the aggressiveness is restored.\<close>

definition iterative_pass ::
  "arith \<Rightarrow> migration_manager \<Rightarrow> bool \<Rightarrow> real \<Rightarrow> int
     \<Rightarrow> py_error + ((vm \<times> host) list \<times> migration_manager)" where
  "iterative_pass ar mm anti_affinity_only' iteration_threshold_multiplier iteration =
     (let original_aggressiveness = aggressiveness mm
      in bind_err (pass_aggressiveness ar (aggressiveness mm) iteration_threshold_multiplier iteration)
           (\<lambda>adjusted_aggressiveness.
              bind_err (plan_migrations ar (mm\<lparr>aggressiveness := adjusted_aggressiveness\<rparr>)
                          anti_affinity_only')
                (\<lambda>(migrations_this_iteration, mm1).
                   Inr (migrations_this_iteration, mm1\<lparr>aggressiveness := original_aggressiveness\<rparr>))))"

text \<open>
  The loop of \<^verbatim>\<open>plan_migrations_iterative\<close> over the iterations still to run. Besides
  the accumulated plan and the planner it returns, as a trace, the aggressiveness each
  pass ran with (a ghost of the model: the source does not keep it).
\<close>

fun iterative_loop ::
  "arith \<Rightarrow> bool \<Rightarrow> real \<Rightarrow> int list \<Rightarrow> (vm \<times> host) list \<Rightarrow> int list \<Rightarrow> migration_manager
     \<Rightarrow> py_error + ((vm \<times> host) list \<times> int list \<times> migration_manager)" where
  "iterative_loop ar aao mult [] all_migrations trace mm =
     bind_err (is_balanced ar (mm_load_evaluator mm) None 3 (None, None, None, None))
       (\<lambda>(final_is_balanced, le'). Inr (all_migrations, trace, mm\<lparr>mm_load_evaluator := le'\<rparr>))"
| "iterative_loop ar aao mult (iteration # rest) all_migrations trace mm =
     (let aa_violations =
            calculate_anti_affinity_violations (mm_cluster_state mm) (mm_constraint_manager mm)
      in bind_err (is_balanced ar (mm_load_evaluator mm) None 3 (None, None, None, None))
           (\<lambda>(is_balanced', le').
              (let mm1 = mm\<lparr>mm_load_evaluator := le'\<rparr>
               in if aa_violations = [] \<and> is_balanced' then Inr (all_migrations, trace, mm1)
                  else
                    bind_err (pass_aggressiveness ar (aggressiveness mm1) mult iteration)
                      (\<lambda>used.
                         bind_err (iterative_pass ar mm1 aao mult iteration)
                           (\<lambda>(migrations_this_iteration, mm2).
                              if migrations_this_iteration = []
                              then iterative_loop ar aao mult [] all_migrations (trace @ [used]) mm2
                              else iterative_loop ar aao mult rest
                                     (all_migrations @ migrations_this_iteration) (trace @ [used])
                                     (mm2\<lparr>mm_load_evaluator :=
                                            (mm_load_evaluator mm2)\<lparr>le_cache := None\<rparr>\<rparr>))))))"

text \<open>\<^verbatim>\<open>plan_migrations_iterative\<close>: the iterations are \<^verbatim>\<open>range(1, max_iterations + 1)\<close>.\<close>

definition plan_migrations_iterative ::
  "arith \<Rightarrow> migration_manager \<Rightarrow> int \<Rightarrow> bool \<Rightarrow> real
     \<Rightarrow> py_error + ((vm \<times> host) list \<times> int list \<times> migration_manager)" where
  "plan_migrations_iterative ar mm max_iterations anti_affinity_only'
       iteration_threshold_multiplier =
     iterative_loop ar anti_affinity_only' iteration_threshold_multiplier [1..max_iterations] [] [] mm"

section \<open>The specification's notions\<close>

text \<open>
  The definitions of this section follow the words of the specification, not the code:
  the theorems compare them with the functions above.
\<close>

text \<open>A VM is placed on the host of a given name.\<close>

definition vm_on :: "cluster_state \<Rightarrow> string \<Rightarrow> vm \<Rightarrow> bool" where
  "vm_on cs hn v = (case get_host_of_vm cs v of None \<Rightarrow> False | Some h \<Rightarrow> host_name h = hn)"

text \<open>\<open>host_count[h]\<close>: the number of VMs of the group that are placed on \<open>h\<close>.\<close>

definition group_count :: "cluster_state \<Rightarrow> vm list \<Rightarrow> string \<Rightarrow> int" where
  "group_count cs g hn = int (length (filter (vm_on cs hn) g))"

definition active_names :: "cluster_state \<Rightarrow> string set" where
  "active_names cs = host_name ` set (cs_hosts cs)"

definition group_max :: "cluster_state \<Rightarrow> vm list \<Rightarrow> int" where
  "group_max cs g = Max (group_count cs g ` active_names cs)"

definition group_min :: "cluster_state \<Rightarrow> vm list \<Rightarrow> int" where
  "group_min cs g = Min (group_count cs g ` active_names cs)"

text \<open>The violators of a group: when the spread over the active hosts exceeds 1, the
  VMs of the group on a host whose count is the maximum.\<close>

definition spec_group_violators :: "cluster_state \<Rightarrow> vm list \<Rightarrow> vm set" where
  "spec_group_violators cs g =
     (if group_max cs g - group_min cs g > 1
      then {v \<in> set g. \<exists>hn \<in> active_names cs. vm_on cs hn v \<and> group_count cs g hn = group_max cs g}
      else {})"

definition spec_violators :: "cluster_state \<Rightarrow> (string \<times> vm list) list \<Rightarrow> vm set" where
  "spec_violators cs d = (\<Union>(prefix, g) \<in> set d. spec_group_violators cs g)"

section \<open>A small cluster\<close>

text \<open>Three hosts and the VMs \<^verbatim>\<open>app01\<close>, \<^verbatim>\<open>app02\<close>, \<^verbatim>\<open>app03\<close>, all on the first host
  (the scenario of pure anti-affinity distribution), with their metrics.\<close>

definition ex_h1 :: host where "ex_h1 = \<lparr>host_name = ''H1'', host_moId = ''host-1''\<rparr>"
definition ex_h2 :: host where "ex_h2 = \<lparr>host_name = ''H2'', host_moId = ''host-2''\<rparr>"
definition ex_h3 :: host where "ex_h3 = \<lparr>host_name = ''H3'', host_moId = ''host-3''\<rparr>"

definition ex_app01 :: vm where
  "ex_app01 = \<lparr>vm_name = ''app01'', vm_moId = ''vm-1'', vm_host = Some ex_h1, vm_template = False\<rparr>"
definition ex_app02 :: vm where
  "ex_app02 = \<lparr>vm_name = ''app02'', vm_moId = ''vm-2'', vm_host = Some ex_h1, vm_template = False\<rparr>"
definition ex_app03 :: vm where
  "ex_app03 = \<lparr>vm_name = ''app03'', vm_moId = ''vm-3'', vm_host = Some ex_h1, vm_template = False\<rparr>"

definition ex_vm_metrics :: metrics where
  "ex_vm_metrics = [(''cpu_usage_abs'', 100), (''memory_usage_abs'', 100)]"

definition ex_host_metrics :: "real \<Rightarrow> metrics" where
  "ex_host_metrics used =
     [(''cpu_usage'', used), (''memory_usage'', used), (''cpu_capacity'', 1000),
      (''memory_capacity'', 1000), (''disk_io_usage'', 10), (''disk_io_capacity'', 100),
      (''network_io_usage'', 5), (''network_capacity'', 100)]"

definition ex_cs :: cluster_state where
  "ex_cs = \<lparr>cs_vms = [ex_app01, ex_app02, ex_app03],
            cs_hosts = [ex_h1, ex_h2, ex_h3],
            cs_vm_metrics = [(''app01'', ex_vm_metrics), (''app02'', ex_vm_metrics),
                             (''app03'', ex_vm_metrics)],
            cs_host_metrics = [(''H1'', ex_host_metrics 300), (''H2'', ex_host_metrics 0),
                               (''H3'', ex_host_metrics 0)]\<rparr>"

definition ex_cm :: constraint_manager where
  "ex_cm = \<lparr>vm_distribution = [(''app'', [ex_app01, ex_app02, ex_app03])], violations = []\<rparr>"

definition ex_le :: load_evaluator where
  "ex_le = \<lparr>le_hosts = [\<lparr>hd_name = ''H1'', hd_metrics = ex_host_metrics 300\<rparr>,
                         \<lparr>hd_name = ''H2'', hd_metrics = ex_host_metrics 0\<rparr>,
                         \<lparr>hd_name = ''H3'', hd_metrics = ex_host_metrics 0\<rparr>],
            le_cache = None\<rparr>"

definition ex_mm :: migration_manager where
  "ex_mm = \<lparr>mm_cluster_state = ex_cs, mm_constraint_manager = ex_cm, mm_load_evaluator = ex_le,
            aggressiveness = 3, max_total_migrations = 20, ignore_anti_affinity = False,
            anti_affinity_only = False\<rparr>"

text \<open>The arithmetic without rounding. The examples run the model with it, on inputs on
  which binary floating point is exact too.\<close>

definition exact_arith :: arith where
  "exact_arith = \<lparr>fl_add = (+), fl_sub = (-), fl_mul = (*), fl_div = (/), fl_round2 = py_round2\<rparr>"

text \<open>The percentage the code computes for a usage and a capacity, as a value: the
  product of the quotient and 100, both in the code's arithmetic, when the capacity is
  positive, and 0 otherwise.\<close>

definition percentage_value :: "arith \<Rightarrow> real \<Rightarrow> real \<Rightarrow> real" where
  "percentage_value ar usage capacity =
     (if capacity > 0 then fl_mul ar (fl_div ar usage capacity) 100 else 0)"

text \<open>What the specification says of a usage percentage \<open>p\<close>: it is
  \<^verbatim>\<open>usage / capacity * 100\<close> (the code's floating-point expression) when the capacity is
  positive, and 0 when the capacity is 0.\<close>

definition is_usage_percentage :: "arith \<Rightarrow> real \<Rightarrow> real \<Rightarrow> real \<Rightarrow> bool" where
  "is_usage_percentage ar p usage capacity =
     ((capacity > 0 \<longrightarrow> p = fl_mul ar (fl_div ar usage capacity) 100) \<and> (capacity = 0 \<longrightarrow> p = 0))"

definition host_percentage_values :: "arith \<Rightarrow> host_data \<Rightarrow> real \<times> real \<times> real \<times> real" where
  "host_percentage_values ar h =
     (let m = hd_metrics h
      in (percentage_value ar (dict_get m ''cpu_usage'' 0) (dict_get m ''cpu_capacity'' 0),
          percentage_value ar (dict_get m ''memory_usage'' 0) (dict_get m ''memory_capacity'' 0),
          percentage_value ar (dict_get m ''disk_io_usage'' 0) (dict_get m ''disk_io_capacity'' 0),
          percentage_value ar (dict_get m ''network_io_usage'' 0) (dict_get m ''network_capacity'' 0)))"

definition percentage_values :: "arith \<Rightarrow> host_data list \<Rightarrow> percentage_lists" where
  "percentage_values ar hs =
     (map (\<lambda>h. fst (host_percentage_values ar h)) hs,
      map (\<lambda>h. fst (snd (host_percentage_values ar h))) hs,
      map (\<lambda>h. fst (snd (snd (host_percentage_values ar h)))) hs,
      map (\<lambda>h. snd (snd (snd (host_percentage_values ar h)))) hs)"

text \<open>An evaluator with one host whose disk capacity is 0 and whose network keys are
  missing (so that the capacity read is the default 0).\<close>

definition ex_le_zero :: load_evaluator where
  "ex_le_zero =
     \<lparr>le_hosts = [\<lparr>hd_name = ''H1'',
                   hd_metrics = [(''cpu_usage'', 512), (''cpu_capacity'', 2048),
                                 (''memory_usage'', 0), (''memory_capacity'', 1024),
                                 (''disk_io_usage'', 3), (''disk_io_capacity'', 0)]\<rparr>],
      le_cache = None\<rparr>"

definition ex_db :: vm where
  "ex_db = \<lparr>vm_name = ''db'', vm_moId = ''vm-9'', vm_host = Some ex_h1, vm_template = False\<rparr>"

text \<open>The count of a host in a table of group counts (0 for a host without entry).\<close>

definition host_count :: "(string \<times> int) list \<Rightarrow> host \<Rightarrow> int" where
  "host_count counts h = dict_get counts (host_name h) 0"

text \<open>The order of the selection: a lower count first, at equal counts the
  lexicographically smaller name.\<close>

definition preferred_over :: "(string \<times> int) list \<Rightarrow> host \<Rightarrow> host \<Rightarrow> bool" where
  "preferred_over counts h h' =
     (host_count counts h < host_count counts h' \<or>
      (host_count counts h = host_count counts h' \<and> host_name h \<le> host_name h'))"






text \<open>The state of the selection loop is coherent: no best host and no lowest count, or
  a best host and its count.\<close>

definition selection_state_ok :: "(string \<times> int) list \<Rightarrow> host option \<times> int option \<Rightarrow> bool" where
  "selection_state_ok counts st =
     (case st of
        (None, l) \<Rightarrow> l = None
      | (Some b, l) \<Rightarrow> l = Some (host_count counts b))"

text \<open>The manager after the regrouping that \<^verbatim>\<open>get_preferred_host_for_vm\<close> and the safety
  check do first when the grouping is empty.\<close>

definition ensure_distribution :: "cluster_state \<Rightarrow> constraint_manager \<Rightarrow> constraint_manager" where
  "ensure_distribution cs cm = (if vm_distribution cm = [] then enforce_anti_affinity cs cm else cm)"

text \<open>What every target of an anti-affinity move satisfies: the name of the VM has at
  least three characters, the target is a host of the cluster, and the VM is placed on
  a host of another name.\<close>

definition aa_target_ok :: "cluster_state \<Rightarrow> vm \<Rightarrow> host \<Rightarrow> bool" where
  "aa_target_ok cs v t =
     (3 \<le> length (vm_name v) \<and> t \<in> set (cs_hosts cs) \<and>
      (\<exists>s. get_host_of_vm cs v = Some s \<and> host_name t \<noteq> host_name s))"

text \<open>A cluster whose VMs have names of two characters: \<^verbatim>\<open>v1\<close>, \<^verbatim>\<open>v2\<close>, \<^verbatim>\<open>v3\<close>, all on
  the first of three hosts.\<close>

definition ex_v1 :: vm where
  "ex_v1 = \<lparr>vm_name = ''v1'', vm_moId = ''vm-11'', vm_host = Some ex_h1, vm_template = False\<rparr>"
definition ex_v2 :: vm where
  "ex_v2 = \<lparr>vm_name = ''v2'', vm_moId = ''vm-12'', vm_host = Some ex_h1, vm_template = False\<rparr>"
definition ex_v3 :: vm where
  "ex_v3 = \<lparr>vm_name = ''v3'', vm_moId = ''vm-13'', vm_host = Some ex_h1, vm_template = False\<rparr>"

definition ex_short_cs :: cluster_state where
  "ex_short_cs = ex_cs\<lparr>cs_vms := [ex_v1, ex_v2, ex_v3],
                      cs_vm_metrics := [(''v1'', ex_vm_metrics), (''v2'', ex_vm_metrics),
                                        (''v3'', ex_vm_metrics)]\<rparr>"

definition ex_short_mm :: migration_manager where
  "ex_short_mm = ex_mm\<lparr>mm_cluster_state := ex_short_cs,
                      mm_constraint_manager := \<lparr>vm_distribution = [], violations = []\<rparr>\<rparr>"


text \<open>Two hosts and the VMs \<^verbatim>\<open>web1\<close> on the first and \<^verbatim>\<open>web2\<close> on the second: the group
  \<^verbatim>\<open>web\<close> is spread evenly.\<close>

definition ex_web1 :: vm where
  "ex_web1 = \<lparr>vm_name = ''web1'', vm_moId = ''vm-21'', vm_host = Some ex_h1, vm_template = False\<rparr>"
definition ex_web2 :: vm where
  "ex_web2 = \<lparr>vm_name = ''web2'', vm_moId = ''vm-22'', vm_host = Some ex_h2, vm_template = False\<rparr>"

definition ex_web_cs :: cluster_state where
  "ex_web_cs = \<lparr>cs_vms = [ex_web1, ex_web2], cs_hosts = [ex_h1, ex_h2],
                cs_vm_metrics = [(''web1'', ex_vm_metrics), (''web2'', ex_vm_metrics)],
                cs_host_metrics = [(''H1'', ex_host_metrics 100), (''H2'', ex_host_metrics 100)]\<rparr>"

definition ex_web_mm :: migration_manager where
  "ex_web_mm = ex_mm\<lparr>mm_cluster_state := ex_web_cs,
                     mm_constraint_manager := apply_constraints ex_web_cs \<lparr>vm_distribution = [], violations = []\<rparr>\<rparr>"











text \<open>Two planners with the same cluster state and the same configuration: what the
  planning passes leave unchanged (they replace the constraint manager's grouping and
  the evaluator's cache only).\<close>

definition same_config :: "migration_manager \<Rightarrow> migration_manager \<Rightarrow> bool" where
  "same_config mm mm' =
     (mm_cluster_state mm' = mm_cluster_state mm \<and> aggressiveness mm' = aggressiveness mm \<and>
      max_total_migrations mm' = max_total_migrations mm \<and>
      ignore_anti_affinity mm' = ignore_anti_affinity mm \<and>
      anti_affinity_only mm' = anti_affinity_only mm)"

text \<open>A move of the balancing pass, as the pass makes it: the VM is on a host of the
  cluster taken as source, the target is a host of the cluster of another name than
  the source, and the reason is not anti-affinity.\<close>

definition balancing_move_ok :: "cluster_state \<Rightarrow> migration \<Rightarrow> bool" where
  "balancing_move_ok cs m =
     (mig_target_host m \<in> set (cs_hosts cs) \<and> mig_reason m \<noteq> AntiAffinity \<and>
      (\<exists>src \<in> set (cs_hosts cs). mig_vm m \<in> set (get_vms_on_host cs src) \<and>
           host_name (mig_target_host m) \<noteq> host_name src))"

text \<open>A move of the anti-affinity pass, as the pass makes it.\<close>

definition anti_affinity_move_ok :: "cluster_state \<Rightarrow> migration \<Rightarrow> bool" where
  "anti_affinity_move_ok cs m =
     (mig_reason m = AntiAffinity \<and> aa_target_ok cs (mig_vm m) (mig_target_host m))"

section \<open>Auxiliary facts\<close>

lemma py_min_Min: "xs \<noteq> [] \<Longrightarrow> py_min xs = Min (set xs)"
  by (cases xs) (simp_all add: Min.set_eq_fold[symmetric])

lemma py_max_Max: "xs \<noteq> [] \<Longrightarrow> py_max xs = Max (set xs)"
  by (cases xs) (simp_all add: Max.set_eq_fold[symmetric])

lemma fold_update_const:
  "map_of (fold (\<lambda>h d. AList.update (f h) c d) hs d0) n =
     (if n \<in> f ` set hs then Some c else map_of d0 n)"
  by (induction hs arbitrary: d0) (auto simp: update_conv')

lemma fold_update_distinct:
  "distinct (map fst d0) \<Longrightarrow> distinct (map fst (fold (\<lambda>h d. AList.update (f h) c d) hs d0))"
  by (induction hs arbitrary: d0) (auto simp: distinct_update)

lemma map_of_zero_counts:
  "map_of (zero_counts hs) n = (if n \<in> host_name ` set hs then Some 0 else None)"
  by (simp add: zero_counts_def fold_update_const)

lemma map_of_empty_lists:
  "map_of (empty_lists hs) n = (if n \<in> host_name ` set hs then Some [] else None)"
  by (simp add: empty_lists_def fold_update_const)

lemma distinct_zero_counts: "distinct (map fst (zero_counts hs))"
  by (simp add: zero_counts_def fold_update_distinct)

lemma group_count_Cons:
  "group_count cs (v # g) hn = (if vm_on cs hn v then 1 else 0) + group_count cs g hn"
  by (simp add: group_count_def)

lemma group_count_Nil: "group_count cs [] hn = 0"
  by (simp add: group_count_def)

lemma group_count_nonneg: "0 \<le> group_count cs g hn"
  by (simp add: group_count_def)

lemma fold_count_vm:
  "fold (count_vm cs) g (c, m, n) = (c', m', n') \<Longrightarrow>
     map_of c' hn = (case map_of c hn of None \<Rightarrow> None | Some k \<Rightarrow> Some (k + group_count cs g hn)) \<and>
     dict_get m' hn [] = (if map_of c hn \<noteq> None then dict_get m hn [] @ filter (vm_on cs hn) g
                     else dict_get m hn []) \<and>
     map fst c' = map fst c \<and>
     (n' = 0 \<longrightarrow> n = 0 \<and> (\<forall>k. map_of c k \<noteq> None \<longrightarrow> group_count cs g k = 0))"
proof (induction g arbitrary: c m n)
  case Nil
  then show ?case by (auto simp: group_count_Nil split: option.splits)
next
  case (Cons v g)
  obtain c1 m1 n1 where st: "count_vm cs v (c, m, n) = (c1, m1, n1)"
    by (cases "count_vm cs v (c, m, n)") auto
  with Cons.prems have f: "fold (count_vm cs) g (c1, m1, n1) = (c', m', n')" by simp
  note IH = Cons.IH[OF f]
  show ?case
  proof (cases "get_host_of_vm cs v")
    case None
    with st have e: "c1 = c" "m1 = m" "n1 = n" by (auto simp: count_vm_def)
    from None have on: "\<And>k. vm_on cs k v = False" by (simp add: vm_on_def)
    show ?thesis using IH unfolding e by (simp add: group_count_Cons on split: option.splits)
  next
    case (Some h)
    have on: "\<And>k. vm_on cs k v = (host_name h = k)" using Some by (auto simp: vm_on_def)
    show ?thesis
    proof (cases "map_of c (host_name h)")
      case None
      with Some st have e: "c1 = c" "m1 = m" "n1 = n" by (auto simp: count_vm_def)
      show ?thesis using IH None unfolding e
        by (auto simp: group_count_Cons on split: option.splits)
    next
      case (Some k0)
      with \<open>get_host_of_vm cs v = Some h\<close> st
      have e: "c1 = AList.update (host_name h) (k0 + 1) c"
        "m1 = AList.update (host_name h) (dict_get m (host_name h) [] @ [v]) m" "n1 = Suc n"
        by (auto simp: count_vm_def)
      have keys: "map fst c1 = map fst c" unfolding e using Some
        by (simp add: update_keys) (metis domI dom_map_of_conv_image_fst)
      have c1: "map_of c1 hn = (if hn = host_name h then Some (k0 + 1) else map_of c hn)"
        unfolding e by (simp add: update_conv')
      have m1: "dict_get m1 hn [] = (if hn = host_name h then dict_get m hn [] @ [v] else dict_get m hn [])"
        unfolding e by (simp add: update_conv' dict_get_def)
      have p1: "map_of c' hn = (case map_of c hn of None \<Rightarrow> None | Some k \<Rightarrow> Some (k + group_count cs (v # g) hn))"
        using IH Some by (auto simp add: c1 group_count_Cons on split: option.splits)
      have p2: "dict_get m' hn [] = (if map_of c hn \<noteq> None then dict_get m hn [] @ filter (vm_on cs hn) (v # g)
                     else dict_get m hn [])"
        using IH Some by (auto simp add: c1 m1 on)
      have p3: "map fst c' = map fst c" using IH keys by simp
      have p4: "n' \<noteq> 0" using IH e by auto
      show ?thesis using p1 p2 p3 p4 by simp
    qed
  qed
qed


lemma set_group_violations:
  assumes hs: "cs_hosts cs \<noteq> []"
  shows "set (group_violations cs g) = spec_group_violators cs g"
proof -
  obtain c' m' n' where f: "fold (count_vm cs) g (zero_counts (cs_hosts cs), empty_lists (cs_hosts cs), 0) = (c', m', n')"
    by (cases "fold (count_vm cs) g (zero_counts (cs_hosts cs), empty_lists (cs_hosts cs), 0)") auto
  note F = fold_count_vm[OF f]
  have c': "\<And>hn. map_of c' hn = (if hn \<in> active_names cs then Some (group_count cs g hn) else None)"
    using F by (simp add: map_of_zero_counts active_names_def)
  have m': "\<And>hn. hn \<in> active_names cs \<Longrightarrow> dict_get m' hn [] = filter (vm_on cs hn) g"
    using F by (simp add: map_of_zero_counts map_of_empty_lists active_names_def dict_get_def)
  have dk: "distinct (map fst c')" using F[of undefined] by (simp add: distinct_zero_counts)
  have mem: "\<And>hn k. (hn, k) \<in> set c' \<longleftrightarrow> hn \<in> active_names cs \<and> k = group_count cs g hn"
    using dk c' by (metis map_of_eq_Some_iff option.distinct(1) option.inject)
  have ne: "active_names cs \<noteq> {}" using hs by (simp add: active_names_def)
  have fin: "finite (active_names cs)" by (simp add: active_names_def)
  let ?actual = "map (\<lambda>h. the (map_of c' (host_name h)))
                        (filter (\<lambda>h. map_of c' (host_name h) \<noteq> None) (cs_hosts cs))"
  have filt: "filter (\<lambda>h. map_of c' (host_name h) \<noteq> None) (cs_hosts cs) = cs_hosts cs"
    by (rule filter_True) (simp add: c' active_names_def)
  have actual: "?actual = map (\<lambda>h. group_count cs g (host_name h)) (cs_hosts cs)"
    unfolding filt by (rule map_cong) (simp_all add: c' active_names_def)
  have set_actual: "set ?actual = group_count cs g ` active_names cs"
    unfolding actual by (auto simp: active_names_def)
  have ane: "?actual \<noteq> []" using hs actual by simp
  have mn: "py_min ?actual = group_min cs g" unfolding group_min_def set_actual[symmetric] by (rule py_min_Min[OF ane])
  have mx: "py_max ?actual = group_max cs g" unfolding group_max_def set_actual[symmetric] by (rule py_max_Max[OF ane])
  have zero: "spec_group_violators cs g = {}" if z: "\<forall>k \<in> active_names cs. group_count cs g k = 0"
  proof -
    have "group_count cs g ` active_names cs = {0}" using z ne by auto
    then show ?thesis by (simp add: spec_group_violators_def group_max_def group_min_def)
  qed
  show ?thesis
  proof (cases "g = []")
    case True
    then show ?thesis using zero by (simp add: group_violations_def group_count_Nil)
  next
    case gne: False
    show ?thesis
    proof (cases "n' = 0")
      case True
      then have "\<forall>k \<in> active_names cs. group_count cs g k = 0"
        using F[of undefined] by (simp add: map_of_zero_counts active_names_def)
      then show ?thesis using True gne f zero by (simp add: group_violations_def)
    next
      case False
      have "set (concat (map (\<lambda>(host_name', count). if count = group_max cs g
                                 then dict_get m' host_name' [] else []) c'))
            = {v \<in> set g. \<exists>hn \<in> active_names cs. vm_on cs hn v \<and> group_count cs g hn = group_max cs g}"
      proof (intro set_eqI iffI)
        fix v assume "v \<in> set (concat (map (\<lambda>(host_name', count). if count = group_max cs g
                                 then dict_get m' host_name' [] else []) c'))"
        then obtain hn k where hk: "(hn, k) \<in> set c'" "k = group_max cs g" "v \<in> set (dict_get m' hn [])"
          by (auto split: if_splits)
        then show "v \<in> {v \<in> set g. \<exists>hn \<in> active_names cs. vm_on cs hn v \<and> group_count cs g hn = group_max cs g}"
          using mem[of hn k] m'[of hn] by auto
      next
        fix v assume "v \<in> {v \<in> set g. \<exists>hn \<in> active_names cs. vm_on cs hn v \<and> group_count cs g hn = group_max cs g}"
        then obtain hn where hn: "v \<in> set g" "hn \<in> active_names cs" "vm_on cs hn v"
          "group_count cs g hn = group_max cs g" by auto
        then have "(hn, group_max cs g) \<in> set c'" "v \<in> set (dict_get m' hn [])"
          using mem[of hn "group_max cs g"] m'[of hn] by auto
        then show "v \<in> set (concat (map (\<lambda>(host_name', count). if count = group_max cs g
                                 then dict_get m' host_name' [] else []) c'))"
          by force
      qed
      then show ?thesis using False gne f ane mn mx
        unfolding group_violations_def spec_group_violators_def
        by (simp add: Let_def)
    qed
  qed
qed


text \<open>
  C6. Violation detection returns, without duplicates, exactly the VMs the specification
  names: for every group whose spread of per-host counts over the active hosts exceeds
  1, the VMs of the group placed on a host whose count is the maximum; with fewer than
  two active hosts it returns the empty list.
\<close>

theorem violations_are_max_count_vms:
  "distinct (calculate_anti_affinity_violations cs cm) \<and>
   set (calculate_anti_affinity_violations cs cm) =
     (if length (cs_hosts cs) < 2 then {} else spec_violators cs (vm_distribution cm)) \<and>
   (length (cs_hosts cs) < 2 \<longrightarrow> calculate_anti_affinity_violations cs cm = [])"
proof (cases "length (cs_hosts cs) < 2")
  case True
  then show ?thesis by (auto simp: calculate_anti_affinity_violations_def)
next
  case False
  then have hs: "cs_hosts cs \<noteq> []" by auto
  show ?thesis using False hs
    by (auto simp: calculate_anti_affinity_violations_def spec_violators_def set_group_violations[OF hs])
qed

theorem violations_are_max_count_vms_witness:
  "calculate_anti_affinity_violations ex_cs ex_cm = [ex_app01, ex_app02, ex_app03] \<and>
   spec_violators ex_cs (vm_distribution ex_cm) = {ex_app01, ex_app02, ex_app03}"
proof -
  have c: "calculate_anti_affinity_violations ex_cs ex_cm = [ex_app01, ex_app02, ex_app03]"
    by code_simp
  have l: "\<not> length (cs_hosts ex_cs) < 2" by (simp add: ex_cs_def)
  show ?thesis using violations_are_max_count_vms[of ex_cs ex_cm] c l by auto
qed

lemma bind_err_Inr [simp]: "bind_err (Inr x) f = f x"
  by (simp add: bind_err_def)

lemma bind_err_Inl [simp]: "bind_err (Inl e) f = Inl e"
  by (simp add: bind_err_def)

lemma guarded_div_truediv: "b \<noteq> 0 \<Longrightarrow> truediv ar a b = Inr (guarded_div ar a b)"
  by (simp add: guarded_div_def truediv_def)

lemma guarded_div_value: "b \<noteq> 0 \<Longrightarrow> guarded_div ar a b = fl_div ar a b"
  by (simp add: guarded_div_def truediv_def)

lemma usage_percentage_value: "usage_percentage ar u c = Inr (percentage_value ar u c)"
  by (simp add: usage_percentage_def percentage_value_def truediv_def)

lemma host_percentages_value: "host_percentages ar h = Inr (host_percentage_values ar h)"
  by (simp add: host_percentages_def host_percentage_values_def usage_percentage_value Let_def)

lemma percentage_loop_value:
  "percentage_loop ar hs (c, m, d, n) =
     Inr (c @ map (\<lambda>h. fst (host_percentage_values ar h)) hs,
          m @ map (\<lambda>h. fst (snd (host_percentage_values ar h))) hs,
          d @ map (\<lambda>h. fst (snd (snd (host_percentage_values ar h)))) hs,
          n @ map (\<lambda>h. snd (snd (snd (host_percentage_values ar h)))) hs)"
  by (induction hs arbitrary: c m d n)
     (simp_all add: host_percentages_value split: prod.splits)

lemma get_resource_percentage_lists_fresh:
  "le_cache le = None \<Longrightarrow>
   get_resource_percentage_lists ar le =
     Inr (percentage_values ar (le_hosts le),
          le\<lparr>le_cache := Some (percentage_values ar (le_hosts le))\<rparr>)"
  by (simp add: get_resource_percentage_lists_def percentage_loop_value percentage_values_def)

lemma get_resource_percentage_lists_cached:
  "le_cache le = Some c \<Longrightarrow> get_resource_percentage_lists ar le = Inr (c, le)"
  by (simp add: get_resource_percentage_lists_def)

lemma is_usage_percentage_value: "is_usage_percentage ar (percentage_value ar u c) u c"
  by (simp add: is_usage_percentage_def percentage_value_def)

text \<open>
  C9. Whatever the arithmetic, the percentage lists are computed without an error (the
  raising division is never reached with a zero divisor), one entry per host, and every
  entry is the code's \<^verbatim>\<open>usage / capacity * 100\<close> when the capacity is positive and 0
  when the capacity is 0.
\<close>

theorem percentages_guarded_against_zero_capacity:
  "\<exists>cpu mem disk net.
     get_resource_percentage_lists ar (le\<lparr>le_cache := None\<rparr>) =
       Inr ((cpu, mem, disk, net), le\<lparr>le_cache := Some (cpu, mem, disk, net)\<rparr>) \<and>
     length cpu = length (le_hosts le) \<and> length mem = length (le_hosts le) \<and>
     length disk = length (le_hosts le) \<and> length net = length (le_hosts le) \<and>
     (\<forall>i < length (le_hosts le).
        is_usage_percentage ar (cpu ! i)
          (dict_get (hd_metrics (le_hosts le ! i)) ''cpu_usage'' 0)
          (dict_get (hd_metrics (le_hosts le ! i)) ''cpu_capacity'' 0) \<and>
        is_usage_percentage ar (mem ! i)
          (dict_get (hd_metrics (le_hosts le ! i)) ''memory_usage'' 0)
          (dict_get (hd_metrics (le_hosts le ! i)) ''memory_capacity'' 0) \<and>
        is_usage_percentage ar (disk ! i)
          (dict_get (hd_metrics (le_hosts le ! i)) ''disk_io_usage'' 0)
          (dict_get (hd_metrics (le_hosts le ! i)) ''disk_io_capacity'' 0) \<and>
        is_usage_percentage ar (net ! i)
          (dict_get (hd_metrics (le_hosts le ! i)) ''network_io_usage'' 0)
          (dict_get (hd_metrics (le_hosts le ! i)) ''network_capacity'' 0))"
proof -
  obtain cpu mem disk net where pv: "percentage_values ar (le_hosts le) = (cpu, mem, disk, net)"
    by (cases "percentage_values ar (le_hosts le)") auto
  have g: "get_resource_percentage_lists ar (le\<lparr>le_cache := None\<rparr>) =
       Inr ((cpu, mem, disk, net), le\<lparr>le_cache := Some (cpu, mem, disk, net)\<rparr>)"
    using get_resource_percentage_lists_fresh[of "le\<lparr>le_cache := None\<rparr>" ar] pv by simp
  from pv have e: "cpu = map (\<lambda>h. fst (host_percentage_values ar h)) (le_hosts le)"
    "mem = map (\<lambda>h. fst (snd (host_percentage_values ar h))) (le_hosts le)"
    "disk = map (\<lambda>h. fst (snd (snd (host_percentage_values ar h)))) (le_hosts le)"
    "net = map (\<lambda>h. snd (snd (snd (host_percentage_values ar h)))) (le_hosts le)"
    by (simp_all add: percentage_values_def)
  show ?thesis
    apply (rule exI[of _ cpu], rule exI[of _ mem], rule exI[of _ disk], rule exI[of _ net])
    using g by (simp add: e host_percentage_values_def Let_def is_usage_percentage_value)
qed

theorem percentages_guarded_against_zero_capacity_witness:
  "\<exists>cpu mem disk net le'.
     get_resource_percentage_lists exact_arith ex_le_zero = Inr ((cpu, mem, disk, net), le') \<and>
     cpu ! 0 = 25 \<and> mem ! 0 = 0 \<and> disk ! 0 = 0 \<and> net ! 0 = 0"
proof -
  have n: "ex_le_zero\<lparr>le_cache := None\<rparr> = ex_le_zero" by (simp add: ex_le_zero_def)
  from percentages_guarded_against_zero_capacity[of exact_arith ex_le_zero]
  obtain cpu mem disk net where
    g: "get_resource_percentage_lists exact_arith ex_le_zero =
          Inr ((cpu, mem, disk, net), ex_le_zero\<lparr>le_cache := Some (cpu, mem, disk, net)\<rparr>)"
    and p: "\<forall>i < length (le_hosts ex_le_zero).
        is_usage_percentage exact_arith (cpu ! i)
          (dict_get (hd_metrics (le_hosts ex_le_zero ! i)) ''cpu_usage'' 0)
          (dict_get (hd_metrics (le_hosts ex_le_zero ! i)) ''cpu_capacity'' 0) \<and>
        is_usage_percentage exact_arith (mem ! i)
          (dict_get (hd_metrics (le_hosts ex_le_zero ! i)) ''memory_usage'' 0)
          (dict_get (hd_metrics (le_hosts ex_le_zero ! i)) ''memory_capacity'' 0) \<and>
        is_usage_percentage exact_arith (disk ! i)
          (dict_get (hd_metrics (le_hosts ex_le_zero ! i)) ''disk_io_usage'' 0)
          (dict_get (hd_metrics (le_hosts ex_le_zero ! i)) ''disk_io_capacity'' 0) \<and>
        is_usage_percentage exact_arith (net ! i)
          (dict_get (hd_metrics (le_hosts ex_le_zero ! i)) ''network_io_usage'' 0)
          (dict_get (hd_metrics (le_hosts ex_le_zero ! i)) ''network_capacity'' 0)"
    unfolding n by blast
  have "cpu ! 0 = 25" "mem ! 0 = 0" "disk ! 0 = 0" "net ! 0 = 0"
    using p[rule_format, of 0]
    by (simp_all add: ex_le_zero_def dict_get_def is_usage_percentage_def exact_arith_def)
  with g show ?thesis by blast
qed

lemma preferred_over_refl: "preferred_over counts h h"
  by (simp add: preferred_over_def)

lemma preferred_over_trans:
  "preferred_over counts a b \<Longrightarrow> preferred_over counts b c \<Longrightarrow> preferred_over counts a c"
  by (auto simp: preferred_over_def)

lemma pick_lower_step:
  assumes "selection_state_ok counts (b, l)" and "pick_lower counts x (b, l) = (b', l')"
  shows "selection_state_ok counts (b', l') \<and>
         (\<exists>h. b' = Some h \<and> (h = x \<or> b = Some h) \<and> preferred_over counts h x \<and>
              (\<forall>b0. b = Some b0 \<longrightarrow> preferred_over counts h b0))"
  using assms
  by (cases b; cases l)
     (auto simp: selection_state_ok_def pick_lower_def preferred_over_def host_count_def Let_def
           split: if_splits)

lemma fold_pick_lower:
  assumes "selection_state_ok counts (b, l)" and "fold (pick_lower counts) xs (b, l) = (b', l')"
  shows "selection_state_ok counts (b', l') \<and>
         (xs = [] \<longrightarrow> b' = b) \<and>
         (xs \<noteq> [] \<longrightarrow>
            (\<exists>h. b' = Some h \<and> (h \<in> set xs \<or> b = Some h) \<and>
                 (\<forall>x \<in> set xs. preferred_over counts h x) \<and>
                 (\<forall>b0. b = Some b0 \<longrightarrow> preferred_over counts h b0)))"
  using assms
proof (induction xs arbitrary: b l)
  case Nil
  then show ?case by simp
next
  case (Cons x xs)
  obtain b1 l1 where s: "pick_lower counts x (b, l) = (b1, l1)"
    by (cases "pick_lower counts x (b, l)") auto
  from pick_lower_step[OF Cons.prems(1) s] obtain h1 where
    ok1: "selection_state_ok counts (b1, l1)" and h1: "b1 = Some h1" "h1 = x \<or> b = Some h1"
    "preferred_over counts h1 x" "\<forall>b0. b = Some b0 \<longrightarrow> preferred_over counts h1 b0"
    by blast
  from Cons.prems(2) s have f: "fold (pick_lower counts) xs (b1, l1) = (b', l')" by simp
  note IH = Cons.IH[OF ok1 f]
  show ?case
  proof (cases "xs = []")
    case True
    with IH h1 show ?thesis by auto
  next
    case False
    with IH obtain h where h: "b' = Some h" "h \<in> set xs \<or> b1 = Some h"
      "\<forall>x \<in> set xs. preferred_over counts h x" "\<forall>b0. b1 = Some b0 \<longrightarrow> preferred_over counts h b0"
      by blast
    have p1: "preferred_over counts h h1" using h(4) h1(1) by simp
    have "preferred_over counts h x" using preferred_over_trans[OF p1 h1(3)] .
    moreover have "\<forall>b0. b = Some b0 \<longrightarrow> preferred_over counts h b0"
      using preferred_over_trans[OF p1] h1(4) by blast
    moreover have "h \<in> set (x # xs) \<or> b = Some h" using h(2) h1(1,2) by auto
    ultimately show ?thesis using IH h by auto
  qed
qed

lemma select_lowest:
  "fst (fold (pick_lower counts) xs (None, None)) = None \<longleftrightarrow> xs = []"
  "fst (fold (pick_lower counts) xs (None, None)) = Some h \<Longrightarrow>
     h \<in> set xs \<and> (\<forall>x \<in> set xs. preferred_over counts h x)"
proof -
  obtain b' l' where f: "fold (pick_lower counts) xs (None, None) = (b', l')"
    by (cases "fold (pick_lower counts) xs (None, None)") auto
  have ok: "selection_state_ok counts (None, None)" by (simp add: selection_state_ok_def)
  note F = fold_pick_lower[OF ok f]
  show "fst (fold (pick_lower counts) xs (None, None)) = None \<longleftrightarrow> xs = []"
    using F f by (cases "xs = []") auto
  show "fst (fold (pick_lower counts) xs (None, None)) = Some h \<Longrightarrow>
     h \<in> set xs \<and> (\<forall>x \<in> set xs. preferred_over counts h x)"
    using F f by (cases "xs = []") auto
qed



lemma fold_if_filter:
  "fold (\<lambda>x s. if P x then f x s else s) xs s0 = fold f (filter P xs) s0"
  by (induction xs arbitrary: s0) auto

lemma find_better_than_source_host_filter:
  "find_better_than_source_host counts src sc hs =
     fst (fold (pick_lower counts)
            (filter (\<lambda>t. host_name t \<noteq> src \<and> dict_get counts (host_name t) 0 < sc) hs) (None, None))"
proof -
  have "(\<lambda>target st. if host_name target = src then st
                  else if dict_get counts (host_name target) 0 < sc
                  then pick_lower counts target st else st)
      = (\<lambda>x s. if host_name x \<noteq> src \<and> dict_get counts (host_name x) 0 < sc
                then pick_lower counts x s else s)"
    by (auto simp: fun_eq_iff)
  then show ?thesis
    unfolding find_better_than_source_host_def by (simp only: fold_if_filter)
qed

lemma find_perfect_balance_host_Some:
  assumes "find_perfect_balance_host counts src hs = Some t"
  shows "t \<in> set hs \<and> is_perfect_balance_candidate counts src hs t \<and>
     (\<forall>x \<in> set hs. is_perfect_balance_candidate counts src hs x \<longrightarrow> preferred_over counts t x)"
proof -
  let ?c = "filter (is_perfect_balance_candidate counts src hs) hs"
  from assms have "fst (fold (pick_lower counts) ?c (None, None)) = Some t"
    by (simp only: find_perfect_balance_host_def Let_def)
  from select_lowest(2)[OF this] have "t \<in> set ?c" "\<forall>x \<in> set ?c. preferred_over counts t x"
    by blast+
  then show ?thesis by simp
qed


lemma find_better_than_source_host_Some:
  assumes "find_better_than_source_host counts src sc hs = Some t"
  shows "t \<in> set hs \<and> host_name t \<noteq> src \<and> host_count counts t < sc \<and>
     (\<forall>x \<in> set hs. host_name x \<noteq> src \<and> host_count counts x < sc \<longrightarrow> preferred_over counts t x)"
proof -
  let ?c = "filter (\<lambda>t. host_name t \<noteq> src \<and> dict_get counts (host_name t) 0 < sc) hs"
  from assms have "fst (fold (pick_lower counts) ?c (None, None)) = Some t"
    by (simp only: find_better_than_source_host_filter)
  from select_lowest(2)[OF this] have "t \<in> set ?c" "\<forall>x \<in> set ?c. preferred_over counts t x"
    by blast+
  then show ?thesis by (simp add: host_count_def)
qed














lemma get_preferred_host_for_vm_guarded:
  assumes "3 \<le> length (vm_name v)"
      and "map_of (vm_distribution (ensure_distribution cs cm)) (get_vm_prefix (vm_name v)) = Some g"
      and "g \<noteq> []"
      and "get_host_of_vm cs v = Some src"
      and "2 \<le> length (cs_hosts cs)"
  shows "get_preferred_host_for_vm cs cm v planned =
           ((case find_perfect_balance_host
                    (adjusted_host_group_counts cs (get_vm_prefix (vm_name v)) g planned)
                    (host_name src) (cs_hosts cs) of
               Some best \<Rightarrow> Some best
             | None \<Rightarrow> find_better_than_source_host
                         (adjusted_host_group_counts cs (get_vm_prefix (vm_name v)) g planned)
                         (host_name src)
                         (dict_get (adjusted_host_group_counts cs (get_vm_prefix (vm_name v)) g planned)
                            (host_name src) 0)
                         (cs_hosts cs)),
            ensure_distribution cs cm)"
proof -
  have d: "vm_distribution (ensure_distribution cs cm) \<noteq> []" using assms(2) by auto
  have h: "cs_hosts cs \<noteq> []" "\<not> length (cs_hosts cs) \<le> 1" using assms(5) by auto
  show ?thesis
    using assms(1) d h assms(2,3,4)
    unfolding get_preferred_host_for_vm_def Let_def ensure_distribution_def[symmetric]
    by (simp split: option.splits)
qed

lemma get_preferred_host_for_vm_Some:
  assumes "get_preferred_host_for_vm cs cm v planned = (Some t, cm1)"
  shows "aa_target_ok cs v t"
proof -
  from assms have l: "3 \<le> length (vm_name v)"
    by (auto simp: get_preferred_host_for_vm_def split: if_splits)
  from assms l obtain g src where
    g: "map_of (vm_distribution (ensure_distribution cs cm)) (get_vm_prefix (vm_name v)) = Some g"
       "g \<noteq> []" and src: "get_host_of_vm cs v = Some src" and h: "2 \<le> length (cs_hosts cs)"
    unfolding get_preferred_host_for_vm_def Let_def ensure_distribution_def[symmetric]
    by (auto split: if_splits option.splits)
  let ?c = "adjusted_host_group_counts cs (get_vm_prefix (vm_name v)) g planned"
  from get_preferred_host_for_vm_guarded[OF l g src h, of planned] assms
  have r: "(case find_perfect_balance_host ?c (host_name src) (cs_hosts cs) of
               Some best \<Rightarrow> Some best
             | None \<Rightarrow> find_better_than_source_host ?c (host_name src)
                         (dict_get ?c (host_name src) 0) (cs_hosts cs)) = Some t"
    by simp
  have "t \<in> set (cs_hosts cs) \<and> host_name t \<noteq> host_name src"
  proof (cases "find_perfect_balance_host ?c (host_name src) (cs_hosts cs)")
    case None
    with r have "find_better_than_source_host ?c (host_name src)
                         (dict_get ?c (host_name src) 0) (cs_hosts cs) = Some t" by simp
    from find_better_than_source_host_Some[OF this] show ?thesis by simp
  next
    case (Some b)
    with r have "find_perfect_balance_host ?c (host_name src) (cs_hosts cs) = Some t" by simp
    from find_perfect_balance_host_Some[OF this] show ?thesis
      by (simp add: is_perfect_balance_candidate_def)
  qed
  with l src show ?thesis by (simp add: aa_target_ok_def)
qed

lemma get_preferred_host_for_vm_short:
  "length (vm_name v) < 3 \<Longrightarrow> get_preferred_host_for_vm cs cm v planned = (None, cm)"
  by (simp add: get_preferred_host_for_vm_def)

lemma plan_anti_affinity_step_cases:
  assumes "plan_anti_affinity_step ar v (pl, names, mm) = (pl', names', mm')"
  shows "mm_cluster_state mm' = mm_cluster_state mm \<and>
         mm_load_evaluator mm' = mm_load_evaluator mm \<and>
         aggressiveness mm' = aggressiveness mm \<and>
         max_total_migrations mm' = max_total_migrations mm \<and>
         ignore_anti_affinity mm' = ignore_anti_affinity mm \<and>
         anti_affinity_only mm' = anti_affinity_only mm \<and>
         ((pl' = pl \<and> names' = names) \<or>
          (\<exists>t. vm_name v \<notin> names \<and> aa_target_ok (mm_cluster_state mm) v t \<and>
               pl' = pl @ [\<lparr>mig_vm = v, mig_target_host = t, mig_reason = AntiAffinity\<rparr>] \<and>
               names' = insert (vm_name v) names))"
proof (cases "vm_name v \<in> names \<or> vm_template v")
  case True
  with assms show ?thesis by (auto simp: plan_anti_affinity_step_def split: if_splits)
next
  case False
  obtain r cm1 where g: "get_preferred_host_for_vm (mm_cluster_state mm) (mm_constraint_manager mm) v pl = (r, cm1)"
    by (cases "get_preferred_host_for_vm (mm_cluster_state mm) (mm_constraint_manager mm) v pl") auto
  show ?thesis
  proof (cases r)
    case None
    with assms False g show ?thesis by (auto simp: plan_anti_affinity_step_def)
  next
    case (Some t)
    with g have ok: "aa_target_ok (mm_cluster_state mm) v t"
      using get_preferred_host_for_vm_Some by blast
    from assms False g Some ok show ?thesis
      by (auto simp: plan_anti_affinity_step_def Let_def split: if_splits)
  qed
qed

lemma fold_plan_anti_affinity_step:
  assumes "fold (plan_anti_affinity_step ar) vs (pl, names, mm) = (pl', names', mm')"
      and "I pl names"
      and "mm_cluster_state mm = cs"
      and step: "\<And>pl names v t. I pl names \<Longrightarrow> vm_name v \<notin> names \<Longrightarrow>
                   aa_target_ok cs v t \<Longrightarrow>
                   I (pl @ [\<lparr>mig_vm = v, mig_target_host = t, mig_reason = AntiAffinity\<rparr>])
                     (insert (vm_name v) names)"
  shows "I pl' names' \<and> mm_cluster_state mm' = mm_cluster_state mm \<and>
         mm_load_evaluator mm' = mm_load_evaluator mm \<and>
         aggressiveness mm' = aggressiveness mm \<and>
         max_total_migrations mm' = max_total_migrations mm \<and>
         ignore_anti_affinity mm' = ignore_anti_affinity mm \<and>
         anti_affinity_only mm' = anti_affinity_only mm"
  using assms(1,2,3)
proof (induction vs arbitrary: pl names mm)
  case Nil
  then show ?case by simp
next
  case (Cons v vs)
  obtain pl1 names1 mm1 where s: "plan_anti_affinity_step ar v (pl, names, mm) = (pl1, names1, mm1)"
    by (cases "plan_anti_affinity_step ar v (pl, names, mm)") auto
  note C = plan_anti_affinity_step_cases[OF s]
  have cs: "mm_cluster_state mm1 = cs" using C Cons.prems(3) by simp
  from C have "(pl1 = pl \<and> names1 = names) \<or>
          (\<exists>t. vm_name v \<notin> names \<and> aa_target_ok cs v t \<and>
               pl1 = pl @ [\<lparr>mig_vm = v, mig_target_host = t, mig_reason = AntiAffinity\<rparr>] \<and>
               names1 = insert (vm_name v) names)"
    using Cons.prems(3) by simp
  then have I1: "I pl1 names1"
    using Cons.prems(2) step[of pl names v] by blast
  from Cons.prems(1) s have f: "fold (plan_anti_affinity_step ar) vs (pl1, names1, mm1) = (pl', names', mm')"
    by simp
  have "I pl' names' \<and> mm_cluster_state mm' = mm_cluster_state mm1 \<and>
         mm_load_evaluator mm' = mm_load_evaluator mm1 \<and>
         aggressiveness mm' = aggressiveness mm1 \<and>
         max_total_migrations mm' = max_total_migrations mm1 \<and>
         ignore_anti_affinity mm' = ignore_anti_affinity mm1 \<and>
         anti_affinity_only mm' = anti_affinity_only mm1"
    using Cons.IH[OF f I1 cs] .
  then show ?case using C by simp
qed

lemma plan_anti_affinity_migrations_invariant:
  assumes "plan_anti_affinity_migrations ar mm names = (pl, names', mm')"
      and "I [] names"
      and step: "\<And>pl names v t. I pl names \<Longrightarrow> vm_name v \<notin> names \<Longrightarrow>
                   aa_target_ok (mm_cluster_state mm) v t \<Longrightarrow>
                   I (pl @ [\<lparr>mig_vm = v, mig_target_host = t, mig_reason = AntiAffinity\<rparr>])
                     (insert (vm_name v) names)"
  shows "I pl names' \<and> mm_cluster_state mm' = mm_cluster_state mm \<and>
         mm_load_evaluator mm' = mm_load_evaluator mm \<and>
         aggressiveness mm' = aggressiveness mm \<and>
         max_total_migrations mm' = max_total_migrations mm \<and>
         ignore_anti_affinity mm' = ignore_anti_affinity mm \<and>
         anti_affinity_only mm' = anti_affinity_only mm"
proof -
  define cm1 where "cm1 = (if violations (mm_constraint_manager mm) = []
                 then (let cm' = enforce_anti_affinity (mm_cluster_state mm) (mm_constraint_manager mm)
                       in cm'\<lparr>violations := calculate_anti_affinity_violations (mm_cluster_state mm) cm'\<rparr>)
                 else mm_constraint_manager mm)"
  define mm1 where "mm1 = mm\<lparr>mm_constraint_manager := cm1\<rparr>"
  have r: "plan_anti_affinity_migrations ar mm names =
             (if violations cm1 = [] then ([], names, mm1)
              else fold (plan_anti_affinity_step ar) (violations cm1) ([], names, mm1))"
    unfolding plan_anti_affinity_migrations_def Let_def cm1_def mm1_def ..
  have cs1: "mm_cluster_state mm1 = mm_cluster_state mm" by (simp add: mm1_def)
  show ?thesis
  proof (cases "violations cm1 = []")
    case True
    with r assms(1,2) show ?thesis by (auto simp: mm1_def)
  next
    case False
    with r assms(1) have f: "fold (plan_anti_affinity_step ar) (violations cm1) ([], names, mm1) = (pl, names', mm')"
      by simp
    from fold_plan_anti_affinity_step[where I = I, OF f assms(2) cs1 step]
    show ?thesis by (simp add: mm1_def)
  qed
qed

lemma dict_get_dist_append:
  "dict_get (dist_append k v d) k' [] = (if k' = k then dict_get d k [] @ [v] else dict_get d k' [])"
  by (simp add: dist_append_def dict_get_def update_conv')

lemma fold_dist_append:
  "dict_get (fold (\<lambda>v d. if length (vm_name v) < 1 then d
                          else dist_append (get_vm_prefix (vm_name v)) v d) vs d0) k [] =
     dict_get d0 k [] @ filter (\<lambda>v. vm_name v \<noteq> [] \<and> get_vm_prefix (vm_name v) = k) vs"
  by (induction vs arbitrary: d0) (auto simp: dict_get_dist_append)

lemma enforce_anti_affinity_groups:
  "dict_get (vm_distribution (enforce_anti_affinity cs cm)) k [] =
     filter (\<lambda>v. vm_name v \<noteq> [] \<and> get_vm_prefix (vm_name v) = k) (cs_vms cs)"
proof -
  have e: "dict_get [] k [] = ([]::vm list)" by (simp add: dict_get_def)
  show ?thesis
    unfolding enforce_anti_affinity_def
    using fold_dist_append[of "cs_vms cs" "[]" k] e by simp
qed

lemma get_vm_prefix_nonempty: "n \<noteq> [] \<Longrightarrow> get_vm_prefix n \<noteq> []"
  by (simp add: get_vm_prefix_def)

text \<open>
  C10. A VM whose name has fewer than three characters gets no preferred host, whatever
  the cluster, the manager and the planned moves are, and the anti-affinity pass plans
  no move for it; yet its anti-affinity key is defined (non-empty for a non-empty name)
  and the grouping puts the VM into the group of that key.
\<close>

theorem short_names_get_no_preferred_host:
  assumes "length (vm_name v) < 3"
  shows "get_preferred_host_for_vm cs cm v planned = (None, cm) \<and>
         v \<notin> mig_vm ` set (fst (plan_anti_affinity_migrations ar mm names)) \<and>
         (vm_name v \<noteq> [] \<longrightarrow>
            get_vm_prefix (vm_name v) \<noteq> [] \<and>
            (v \<in> set (cs_vms cs) \<longrightarrow>
               v \<in> set (dict_get (vm_distribution (enforce_anti_affinity cs cm))
                          (get_vm_prefix (vm_name v)) [])))"
proof -
  obtain pl names' mm' where p: "plan_anti_affinity_migrations ar mm names = (pl, names', mm')"
    by (cases "plan_anti_affinity_migrations ar mm names") auto
  have "(\<forall>m \<in> set pl. 3 \<le> length (vm_name (mig_vm m)))"
    using plan_anti_affinity_migrations_invariant
            [where I = "\<lambda>pl names. \<forall>m \<in> set pl. 3 \<le> length (vm_name (mig_vm m))", OF p]
    by (auto simp: aa_target_ok_def)
  then have "v \<notin> mig_vm ` set pl" using assms by auto
  then show ?thesis
    using assms p
    by (simp add: get_preferred_host_for_vm_short get_vm_prefix_nonempty enforce_anti_affinity_groups)
qed

theorem short_names_get_no_preferred_host_witness:
  "length (vm_name ex_v1) < 3 \<and>
   ex_v1 \<in> set (calculate_anti_affinity_violations ex_short_cs
                  (enforce_anti_affinity ex_short_cs (mm_constraint_manager ex_short_mm))) \<and>
   get_preferred_host_for_vm ex_short_cs (mm_constraint_manager ex_short_mm) ex_v1 [] =
     (None, mm_constraint_manager ex_short_mm) \<and>
   ex_v1 \<notin> mig_vm ` set (fst (plan_anti_affinity_migrations exact_arith ex_short_mm {})) \<and>
   get_vm_prefix (vm_name ex_v1) = ''v'' \<and>
   ex_v1 \<in> set (dict_get (vm_distribution (enforce_anti_affinity ex_short_cs
                                             (mm_constraint_manager ex_short_mm))) ''v'' [])"
proof -
  have l: "length (vm_name ex_v1) < 3" by (simp add: ex_v1_def)
  have c: "calculate_anti_affinity_violations ex_short_cs
             (enforce_anti_affinity ex_short_cs (mm_constraint_manager ex_short_mm)) =
           [ex_v1, ex_v2, ex_v3]"
    by code_simp
  have k: "get_vm_prefix (vm_name ex_v1) = ''v''" by code_simp
  have n: "vm_name ex_v1 \<noteq> []" by (simp add: ex_v1_def)
  have m: "ex_v1 \<in> set (cs_vms ex_short_cs)" by (simp add: ex_short_cs_def)
  show ?thesis
    using short_names_get_no_preferred_host
            [OF l, of ex_short_cs "mm_constraint_manager ex_short_mm" "[]" exact_arith ex_short_mm "{}"]
          l c k n m
    by simp
qed








text \<open>
  C1. The safety check looks the group up under \<^verbatim>\<open>name[:-2]\<close>, not under the
  anti-affinity key. For \<^verbatim>\<open>web1\<close> the two differ (\<^verbatim>\<open>we\<close> and \<^verbatim>\<open>web\<close>): the check finds
  no group and answers that the move of \<^verbatim>\<open>web1\<close> to the host of \<^verbatim>\<open>web2\<close> is safe, while
  the same check under the anti-affinity key rejects it (both VMs of the group on one
  of two hosts).
\<close>

theorem safety_check_uses_other_key:
  "safety_check_prefix (vm_name ex_web1) = ''we'' \<and>
   get_vm_prefix (vm_name ex_web1) = ''web'' \<and>
   vm_distribution (mm_constraint_manager ex_web_mm) = [(''web'', [ex_web1, ex_web2])] \<and>
   fst (is_anti_affinity_safe ex_web_mm ex_web1 ex_h2 []) = True \<and>
   anti_affinity_safe_for_prefix ex_web_cs (mm_constraint_manager ex_web_mm)
     (get_vm_prefix (vm_name ex_web1)) ex_web1 ex_h2 [] = False"
  by code_simp


lemma dict_get_append_default:
  "dict_get (d @ [(k, x)]) k' y = (if k' = k then dict_get d k x else dict_get d k' y)"
  by (auto simp: dict_get_def split: option.splits)











lemma same_config_refl: "same_config mm mm"
  by (simp add: same_config_def)

lemma same_config_trans: "same_config a b \<Longrightarrow> same_config b c \<Longrightarrow> same_config a c"
  by (simp add: same_config_def)

lemma same_config_evaluator: "same_config mm (mm\<lparr>mm_load_evaluator := le\<rparr>)"
  by (simp add: same_config_def)

lemma same_config_manager: "same_config mm (mm\<lparr>mm_constraint_manager := cm\<rparr>)"
  by (simp add: same_config_def)

lemma is_anti_affinity_safe_config:
  "is_anti_affinity_safe mm v t planned = (b, mm1) \<Longrightarrow> same_config mm mm1"
  by (auto simp: is_anti_affinity_safe_def Let_def same_config_def)

lemma evaluate_balancing_target_cases:
  assumes "evaluate_balancing_target ar mm v src spct prim det pmap planned t = (r, mm1)"
  shows "same_config mm mm1 \<and> (r \<noteq> None \<longrightarrow> host_name t \<noteq> host_name src)"
proof (cases "host_name t = host_name src \<or> \<not> would_fit_on_host ar (mm_cluster_state mm) v t")
  case True
  with assms show ?thesis
    by (auto simp: evaluate_balancing_target_def same_config_refl split: if_splits)
next
  case False
  obtain aa mmx where s: "(if \<not> ignore_anti_affinity mm then is_anti_affinity_safe mm v t planned
                           else (True, mm)) = (aa, mmx)"
    by (cases "(if \<not> ignore_anti_affinity mm then is_anti_affinity_safe mm v t planned
                           else (True, mm))") auto
  have c: "same_config mm mmx"
  proof (cases "ignore_anti_affinity mm")
    case True
    with s show ?thesis by (simp add: same_config_refl)
  next
    case False
    with s show ?thesis by (simp add: is_anti_affinity_safe_config)
  qed
  from assms False have "mm1 = mmx"
    unfolding evaluate_balancing_target_def s
    by (auto simp: Let_def split: if_splits option.splits)
  with c False show ?thesis by simp
qed

lemma balancing_targets_loop_inv:
  assumes "balancing_targets_loop ar v src spct prim det pmap planned ts pot mm = (pot', mm')"
  shows "same_config mm mm' \<and>
         fst ` set pot' \<subseteq> fst ` set pot \<union> {t \<in> set ts. host_name t \<noteq> host_name src}"
  using assms
proof (induction ts arbitrary: pot mm)
  case Nil
  then show ?case by (simp add: same_config_refl)
next
  case (Cons t ts)
  obtain r mm1 where e: "evaluate_balancing_target ar mm v src spct prim det pmap planned t = (r, mm1)"
    by (cases "evaluate_balancing_target ar mm v src spct prim det pmap planned t") auto
  note E = evaluate_balancing_target_cases[OF e]
  show ?case
  proof (cases r)
    case None
    with Cons.prems e
    have l: "balancing_targets_loop ar v src spct prim det pmap planned ts pot mm1 = (pot', mm')"
      by simp
    from Cons.IH[OF l] E show ?thesis
      by (auto intro: same_config_trans)
  next
    case (Some score)
    with Cons.prems e
    have l: "balancing_targets_loop ar v src spct prim det pmap planned ts (pot @ [(t, score)]) mm1
               = (pot', mm')"
      by simp
    from E Some have n: "host_name t \<noteq> host_name src" by simp
    from Cons.IH[OF l] have
      c: "same_config mm1 mm'" and
      s: "fst ` set pot' \<subseteq> fst ` set (pot @ [(t, score)]) \<union> {t \<in> set ts. host_name t \<noteq> host_name src}"
      by simp_all
    from c E have "same_config mm mm'" by (auto intro: same_config_trans)
    moreover from s n have
      "fst ` set pot' \<subseteq> fst ` set pot \<union> {t' \<in> set (t # ts). host_name t' \<noteq> host_name src}"
      by auto
    ultimately show ?thesis by simp
  qed
qed

lemma find_better_host_for_balancing_cases:
  assumes "find_better_host_for_balancing ar mm v src spct prim hosts det pmap planned = (r, mm1)"
  shows "same_config mm mm1 \<and>
         (\<forall>t. r = Some t \<longrightarrow> t \<in> set hosts \<and> host_name t \<noteq> host_name src)"
proof -
  obtain pot mmx where l: "balancing_targets_loop ar v src spct prim det pmap planned hosts [] mm = (pot, mmx)"
    by (cases "balancing_targets_loop ar v src spct prim det pmap planned hosts [] mm") auto
  note L = balancing_targets_loop_inv[OF l]
  show ?thesis
  proof (cases "sort_key (\<lambda>(h, score). - score) pot")
    case Nil
    with assms l L show ?thesis by (simp add: find_better_host_for_balancing_def)
  next
    case (Cons best rest)
    then have "best \<in> set (sort_key (\<lambda>(h, score). - score) pot)" by simp
    then have "best \<in> set pot" by simp
    then have "fst best \<in> fst ` set pot" by (rule imageI)
    with L have "fst best \<in> set hosts \<and> host_name (fst best) \<noteq> host_name src" by auto
    with assms l L Cons show ?thesis by (auto simp: find_better_host_for_balancing_def)
  qed
qed

lemma balancing_vms_loop_inv:
  assumes "balancing_vms_loop ar src spct hint reasons det prob pmap vs (bal, names, safety, mm)
             = (bal', names', safety', mm')"
  shows "same_config mm mm' \<and>
         (\<exists>new. bal' = bal @ new \<and> safety' = safety @ new \<and>
                names' = names \<union> (\<lambda>m. vm_name (mig_vm m)) ` set new \<and>
                set (map mig_vm new) \<subseteq> set vs \<and>
                (distinct vs \<longrightarrow> distinct (map mig_vm new)) \<and>
                (\<forall>m \<in> set new. mig_target_host m \<in> set (cs_hosts (mm_cluster_state mm)) \<and>
                     host_name (mig_target_host m) \<noteq> host_name src \<and>
                     mig_reason m \<noteq> AntiAffinity))"
  using assms
proof (induction vs arbitrary: bal names safety mm)
  case Nil
  then show ?case by (simp add: same_config_refl)
next
  case (Cons v vs)
  let ?act = "filter (\<lambda>(k, d). k \<in> set prob \<and> is_imbalanced d) det"
  show ?case
  proof (cases "?act = []")
    case True
    with Cons.prems
    have l: "balancing_vms_loop ar src spct hint reasons det prob pmap vs (bal, names, safety, mm)
               = (bal', names', safety', mm')"
      by simp
    from Cons.IH[OF l] obtain new where
      c: "same_config mm mm'" and
      n: "bal' = bal @ new" "safety' = safety @ new"
         "names' = names \<union> (\<lambda>m. vm_name (mig_vm m)) ` set new"
         "set (map mig_vm new) \<subseteq> set vs" "distinct vs \<longrightarrow> distinct (map mig_vm new)"
         "\<forall>m \<in> set new. mig_target_host m \<in> set (cs_hosts (mm_cluster_state mm)) \<and>
                     host_name (mig_target_host m) \<noteq> host_name src \<and>
                     mig_reason m \<noteq> AntiAffinity"
      by blast
    from n(4) have "set (map mig_vm new) \<subseteq> set (v # vs)" by auto
    moreover from n(5) have "distinct (v # vs) \<longrightarrow> distinct (map mig_vm new)" by simp
    ultimately show ?thesis using c n(1,2,3,6) by blast
  next
    case False
    obtain r mm1 where f: "find_better_host_for_balancing ar mm v src spct hint
                             (cs_hosts (mm_cluster_state mm)) ?act pmap safety = (r, mm1)"
      by (cases "find_better_host_for_balancing ar mm v src spct hint
                             (cs_hosts (mm_cluster_state mm)) ?act pmap safety") auto
    note F = find_better_host_for_balancing_cases[OF f]
    then have c1: "same_config mm mm1" by simp
    then have cs1: "mm_cluster_state mm1 = mm_cluster_state mm" by (simp add: same_config_def)
    show ?thesis
    proof (cases r)
      case None
      with Cons.prems False f
      have l: "balancing_vms_loop ar src spct hint reasons det prob pmap vs (bal, names, safety, mm1)
                 = (bal', names', safety', mm')"
        by (simp add: Let_def)
      from Cons.IH[OF l] obtain new where
        c: "same_config mm1 mm'" and
        n: "bal' = bal @ new" "safety' = safety @ new"
           "names' = names \<union> (\<lambda>m. vm_name (mig_vm m)) ` set new"
           "set (map mig_vm new) \<subseteq> set vs" "distinct vs \<longrightarrow> distinct (map mig_vm new)"
           "\<forall>m \<in> set new. mig_target_host m \<in> set (cs_hosts (mm_cluster_state mm1)) \<and>
                       host_name (mig_target_host m) \<noteq> host_name src \<and>
                       mig_reason m \<noteq> AntiAffinity"
        by blast
      from n(4) have "set (map mig_vm new) \<subseteq> set (v # vs)" by auto
      moreover from n(5) have "distinct (v # vs) \<longrightarrow> distinct (map mig_vm new)" by simp
      moreover from c c1 have "same_config mm mm'" by (rule same_config_trans[rotated])
      ultimately show ?thesis using n(1,2,3,6) cs1 by auto
    next
      case (Some t)
      let ?m = "\<lparr>mig_vm = v, mig_target_host = t, mig_reason = ResourceBalancing reasons\<rparr>"
      from Cons.prems False f Some
      have l: "balancing_vms_loop ar src spct hint reasons det prob pmap vs
                 (bal @ [?m], insert (vm_name v) names, safety @ [?m], mm1)
                 = (bal', names', safety', mm')"
        by (simp add: Let_def)
      from F Some have t: "t \<in> set (cs_hosts (mm_cluster_state mm))" "host_name t \<noteq> host_name src"
        by simp_all
      from Cons.IH[OF l] obtain new where
        c: "same_config mm1 mm'" and
        n: "bal' = (bal @ [?m]) @ new" "safety' = (safety @ [?m]) @ new"
           "names' = insert (vm_name v) names \<union> (\<lambda>m. vm_name (mig_vm m)) ` set new"
           "set (map mig_vm new) \<subseteq> set vs" "distinct vs \<longrightarrow> distinct (map mig_vm new)"
           "\<forall>m \<in> set new. mig_target_host m \<in> set (cs_hosts (mm_cluster_state mm1)) \<and>
                       host_name (mig_target_host m) \<noteq> host_name src \<and>
                       mig_reason m \<noteq> AntiAffinity"
        by blast
      let ?new = "?m # new"
      have "bal' = bal @ ?new" "safety' = safety @ ?new" using n(1,2) by simp_all
      moreover have "names' = names \<union> (\<lambda>m. vm_name (mig_vm m)) ` set ?new"
        using n(3) by auto
      moreover have "set (map mig_vm ?new) \<subseteq> set (v # vs)" using n(4) by auto
      moreover have "distinct (v # vs) \<longrightarrow> distinct (map mig_vm ?new)"
        using n(4,5) by auto
      moreover have "\<forall>m \<in> set ?new. mig_target_host m \<in> set (cs_hosts (mm_cluster_state mm)) \<and>
                       host_name (mig_target_host m) \<noteq> host_name src \<and>
                       mig_reason m \<noteq> AntiAffinity"
        using n(6) t cs1 by auto
      moreover from c c1 have "same_config mm mm'" by (rule same_config_trans[rotated])
      ultimately show ?thesis by blast
    qed
  qed
qed

lemma distinct_py_take: "distinct xs \<Longrightarrow> distinct (py_take n xs)"
  by (simp add: py_take_def)

lemma set_py_take: "set (py_take n xs) \<subseteq> set xs"
  by (auto simp: py_take_def dest: in_set_takeD)

lemma select_vms_to_move_props:
  "set (select_vms_to_move ar mm src hint names) \<subseteq>
     {v \<in> set (get_vms_on_host (mm_cluster_state mm) src). vm_name v \<notin> names} \<and>
   (distinct (cs_vms (mm_cluster_state mm)) \<longrightarrow> distinct (select_vms_to_move ar mm src hint names))"
proof -
  let ?cs = "mm_cluster_state mm"
  let ?cand = "filter (\<lambda>v. vm_name v \<notin> names \<and> \<not> vm_template v) (get_vms_on_host ?cs src)"
  let ?sorted = "sort_key (\<lambda>v. - vm_sort_key ar ?cs hint v) ?cand"
  have s: "select_vms_to_move ar mm src hint names =
             (if get_vms_on_host ?cs src = [] then [] else py_take (aggressiveness mm) ?sorted)"
    by (simp add: select_vms_to_move_def Let_def)
  have "set (py_take (aggressiveness mm) ?sorted) \<subseteq> set ?sorted" by (rule set_py_take)
  also have "\<dots> = set ?cand" by simp
  also have "\<dots> \<subseteq> {v \<in> set (get_vms_on_host ?cs src). vm_name v \<notin> names}" by auto
  finally have a: "set (select_vms_to_move ar mm src hint names) \<subseteq>
     {v \<in> set (get_vms_on_host ?cs src). vm_name v \<notin> names}"
    unfolding s by simp
  have "distinct (cs_vms ?cs) \<Longrightarrow> distinct (get_vms_on_host ?cs src)"
    by (simp add: get_vms_on_host_def)
  then have "distinct (cs_vms ?cs) \<Longrightarrow> distinct ?sorted" by simp
  then have "distinct (cs_vms ?cs) \<Longrightarrow> distinct (py_take (aggressiveness mm) ?sorted)"
    by (rule distinct_py_take)
  then have b: "distinct (cs_vms ?cs) \<longrightarrow> distinct (select_vms_to_move ar mm src hint names)"
    unfolding s by simp
  from a b show ?thesis ..
qed

lemma balancing_source_step_inv:
  assumes "balancing_source_step ar det prob pmap src (bal, names, safety, mm)
             = (bal', names', safety', mm')"
      and "src \<in> set (cs_hosts (mm_cluster_state mm))"
  shows "same_config mm mm' \<and>
         (\<exists>new. bal' = bal @ new \<and> safety' = safety @ new \<and>
                names' = names \<union> (\<lambda>m. vm_name (mig_vm m)) ` set new \<and>
                (\<forall>m \<in> set new. vm_name (mig_vm m) \<notin> names) \<and>
                (distinct (cs_vms (mm_cluster_state mm)) \<longrightarrow> distinct (map mig_vm new)) \<and>
                (\<forall>m \<in> set new. balancing_move_ok (mm_cluster_state mm) m))"
proof -
  let ?cs = "mm_cluster_state mm"
  have triv: "same_config mm mm \<and>
         (\<exists>new. bal = bal @ new \<and> safety = safety @ new \<and>
                names = names \<union> (\<lambda>m. vm_name (mig_vm m)) ` set new \<and>
                (\<forall>m \<in> set new. vm_name (mig_vm m) \<notin> names) \<and>
                (distinct (cs_vms ?cs) \<longrightarrow> distinct (map mig_vm new)) \<and>
                (\<forall>m \<in> set new. balancing_move_ok ?cs m))"
    by (intro conjI same_config_refl exI[of _ "[]"]) simp_all
  show ?thesis
  proof (cases "map_of pmap (host_name src)")
    case None
    with assms(1) have "bal' = bal" "names' = names" "safety' = safety" "mm' = mm"
      by (simp_all add: balancing_source_step_def)
    with triv show ?thesis by simp
  next
    case (Some spct)
    obtain contributor reasons hint where
      f: "fold (source_check_resource ar mm det spct) prob (False, [], None) = (contributor, reasons, hint)"
      by (cases "fold (source_check_resource ar mm det spct) prob (False, [], None)") auto
    let ?cands = "select_vms_to_move ar mm src hint names"
    show ?thesis
    proof (cases "contributor \<and> ?cands \<noteq> []")
      case False
      with assms(1) Some f have "bal' = bal" "names' = names" "safety' = safety" "mm' = mm"
        by (auto simp: balancing_source_step_def Let_def split: if_splits)
      with triv show ?thesis by simp
    next
      case True
      with assms(1) Some f
      have l: "balancing_vms_loop ar src spct hint reasons det prob pmap ?cands (bal, names, safety, mm)
                 = (bal', names', safety', mm')"
        by (simp add: balancing_source_step_def Let_def)
      from balancing_vms_loop_inv[OF l] obtain new where
        c: "same_config mm mm'" and
        n: "bal' = bal @ new" "safety' = safety @ new"
           "names' = names \<union> (\<lambda>m. vm_name (mig_vm m)) ` set new"
           "set (map mig_vm new) \<subseteq> set ?cands"
           "distinct ?cands \<longrightarrow> distinct (map mig_vm new)"
           "\<forall>m \<in> set new. mig_target_host m \<in> set (cs_hosts ?cs) \<and>
                       host_name (mig_target_host m) \<noteq> host_name src \<and>
                       mig_reason m \<noteq> AntiAffinity"
        by blast
      note S = select_vms_to_move_props[of ar mm src hint names]
      have v: "mig_vm m \<in> set (get_vms_on_host ?cs src) \<and> vm_name (mig_vm m) \<notin> names"
        if "m \<in> set new" for m
      proof -
        from that have "mig_vm m \<in> set (map mig_vm new)" by simp
        with n(4) have "mig_vm m \<in> set ?cands" by blast
        with S show ?thesis by blast
      qed
      have "\<forall>m \<in> set new. vm_name (mig_vm m) \<notin> names" using v by blast
      moreover have "distinct (cs_vms ?cs) \<longrightarrow> distinct (map mig_vm new)"
        using S n(5) by blast
      moreover have "\<forall>m \<in> set new. balancing_move_ok ?cs m"
      proof
        fix m assume m: "m \<in> set new"
        with n(6) v assms(2) show "balancing_move_ok ?cs m"
          unfolding balancing_move_ok_def by blast
      qed
      ultimately show ?thesis using c n(1,2,3) by blast
    qed
  qed
qed

lemma fold_balancing_source_step:
  assumes "fold (balancing_source_step ar det prob pmap) hs (bal, names, safety, mm)
             = (bal', names', safety', mm')"
      and "set hs \<subseteq> set (cs_hosts (mm_cluster_state mm))"
      and "(\<lambda>m. vm_name (mig_vm m)) ` set safety \<subseteq> names"
  shows "same_config mm mm' \<and>
         (\<exists>new. bal' = bal @ new \<and> safety' = safety @ new \<and>
                names' = names \<union> (\<lambda>m. vm_name (mig_vm m)) ` set new \<and>
                (\<forall>m \<in> set new. vm_name (mig_vm m) \<notin> names) \<and>
                (distinct (cs_vms (mm_cluster_state mm)) \<longrightarrow> distinct (map mig_vm new)) \<and>
                (\<forall>m \<in> set new. balancing_move_ok (mm_cluster_state mm) m))"
  using assms
proof (induction hs arbitrary: bal names safety mm)
  case Nil
  have "same_config mm mm \<and>
         (\<exists>new. bal = bal @ new \<and> safety = safety @ new \<and>
                names = names \<union> (\<lambda>m. vm_name (mig_vm m)) ` set new \<and>
                (\<forall>m \<in> set new. vm_name (mig_vm m) \<notin> names) \<and>
                (distinct (cs_vms (mm_cluster_state mm)) \<longrightarrow> distinct (map mig_vm new)) \<and>
                (\<forall>m \<in> set new. balancing_move_ok (mm_cluster_state mm) m))"
    by (intro conjI same_config_refl exI[of _ "[]"]) simp_all
  with Nil.prems(1) show ?case by simp
next
  case (Cons h hs)
  let ?cs = "mm_cluster_state mm"
  obtain bal1 names1 safety1 mm1 where
    s: "balancing_source_step ar det prob pmap h (bal, names, safety, mm) = (bal1, names1, safety1, mm1)"
    by (cases "balancing_source_step ar det prob pmap h (bal, names, safety, mm)") auto
  from Cons.prems(2) have h: "h \<in> set (cs_hosts ?cs)" by simp
  from balancing_source_step_inv[OF s h] obtain new1 where
    c1: "same_config mm mm1" and
    n1: "bal1 = bal @ new1" "safety1 = safety @ new1"
        "names1 = names \<union> (\<lambda>m. vm_name (mig_vm m)) ` set new1"
        "\<forall>m \<in> set new1. vm_name (mig_vm m) \<notin> names"
        "distinct (cs_vms ?cs) \<longrightarrow> distinct (map mig_vm new1)"
        "\<forall>m \<in> set new1. balancing_move_ok ?cs m"
    by blast
  from c1 have cs1: "mm_cluster_state mm1 = ?cs" by (simp add: same_config_def)
  from Cons.prems(1) s
  have f: "fold (balancing_source_step ar det prob pmap) hs (bal1, names1, safety1, mm1)
             = (bal', names', safety', mm')"
    by simp
  from Cons.prems(2) cs1 have sub: "set hs \<subseteq> set (cs_hosts (mm_cluster_state mm1))" by simp
  from Cons.prems(3) n1(2,3) have nm: "(\<lambda>m. vm_name (mig_vm m)) ` set safety1 \<subseteq> names1" by auto
  from Cons.IH[OF f sub nm] obtain new2 where
    c2: "same_config mm1 mm'" and
    n2: "bal' = bal1 @ new2" "safety' = safety1 @ new2"
        "names' = names1 \<union> (\<lambda>m. vm_name (mig_vm m)) ` set new2"
        "\<forall>m \<in> set new2. vm_name (mig_vm m) \<notin> names1"
        "distinct (cs_vms (mm_cluster_state mm1)) \<longrightarrow> distinct (map mig_vm new2)"
        "\<forall>m \<in> set new2. balancing_move_ok (mm_cluster_state mm1) m"
    by blast
  let ?new = "new1 @ new2"
  have "same_config mm mm'" using c1 c2 by (rule same_config_trans)
  moreover have "bal' = bal @ ?new" "safety' = safety @ ?new" using n1(1,2) n2(1,2) by simp_all
  moreover have "names' = names \<union> (\<lambda>m. vm_name (mig_vm m)) ` set ?new"
    using n1(3) n2(3) by auto
  moreover have "\<forall>m \<in> set ?new. vm_name (mig_vm m) \<notin> names"
    using n1(3,4) n2(4) by auto
  moreover have "distinct (cs_vms ?cs) \<longrightarrow> distinct (map mig_vm ?new)"
  proof
    assume d: "distinct (cs_vms ?cs)"
    with n1(5) n2(5) cs1 have d1: "distinct (map mig_vm new1)" and d2: "distinct (map mig_vm new2)"
      by simp_all
    have "mig_vm ` set new1 \<inter> mig_vm ` set new2 = {}"
    proof (rule ccontr)
      assume "mig_vm ` set new1 \<inter> mig_vm ` set new2 \<noteq> {}"
      then obtain a b where ab: "a \<in> set new1" "b \<in> set new2" "mig_vm a = mig_vm b" by auto
      from ab(1) n1(3) have "vm_name (mig_vm a) \<in> names1" by auto
      moreover from ab(2) n2(4) have "vm_name (mig_vm b) \<notin> names1" by auto
      ultimately show False using ab(3) by simp
    qed
    with d1 d2 show "distinct (map mig_vm ?new)" by simp
  qed
  moreover have "\<forall>m \<in> set ?new. balancing_move_ok ?cs m"
    using n1(6) n2(6) cs1 by auto
  ultimately show ?case by blast
qed

lemma get_resource_percentage_lists_total:
  "\<exists>c m d n le'. get_resource_percentage_lists ar le = Inr ((c, m, d, n), le')"
proof (cases "le_cache le")
  case None
  then show ?thesis by (simp add: get_resource_percentage_lists_fresh percentage_values_def)
next
  case (Some c)
  obtain c1 c2 c3 c4 where "c = (c1, c2, c3, c4)" by (cases c) auto
  with Some show ?thesis by (simp add: get_resource_percentage_lists_cached)
qed

lemma evaluate_imbalance_total:
  "\<exists>d le'. evaluate_imbalance ar le ms agg ov = Inr (d, le')"
proof -
  obtain c m d n le1 where g: "get_resource_percentage_lists ar le = Inr ((c, m, d, n), le1)"
    using get_resource_percentage_lists_total by blast
  have "\<exists>c m d n le2. (case ov of
                   (Some cpu, Some mem, Some disk, Some net) \<Rightarrow> Inr ((cpu, mem, disk, net), le)
                 | _ \<Rightarrow> get_resource_percentage_lists ar le) = Inr ((c, m, d, n), le2)"
    using g by (auto split: prod.splits option.splits)
  then obtain c' m' d' n' le2 where e: "(case ov of
                   (Some cpu, Some mem, Some disk, Some net) \<Rightarrow> Inr ((cpu, mem, disk, net), le)
                 | _ \<Rightarrow> get_resource_percentage_lists ar le) = Inr ((c', m', d', n'), le2)"
    by blast
  show ?thesis
    unfolding evaluate_imbalance_def e by (simp add: Let_def)
qed

lemma get_all_host_resource_percentages_map_total:
  "\<exists>m le'. get_all_host_resource_percentages_map ar le = Inr (m, le')"
proof -
  obtain c m d n le1 where g: "get_resource_percentage_lists ar le = Inr ((c, m, d, n), le1)"
    using get_resource_percentage_lists_total by blast
  show ?thesis
    unfolding get_all_host_resource_percentages_map_def g by simp
qed

lemma get_simulated_load_data_after_migrations_total:
  "\<exists>c m d n sm mm'. get_simulated_load_data_after_migrations ar mm migs = Inr ((c, m, d, n, sm), mm') \<and>
      same_config mm mm'"
proof -
  obtain c m d n le1 where
    g: "get_resource_percentage_lists ar (mm_load_evaluator mm) = Inr ((c, m, d, n), le1)"
    using get_resource_percentage_lists_total by blast
  show ?thesis
  proof (cases "cs_hosts (mm_cluster_state mm) = []")
    case True
    then show ?thesis
      by (simp add: get_simulated_load_data_after_migrations_def same_config_refl)
  next
    case False
    then show ?thesis
      unfolding get_simulated_load_data_after_migrations_def Let_def g
      by (simp add: same_config_evaluator)
  qed
qed

lemma plan_balancing_migrations_inv:
  assumes "(\<lambda>m. vm_name (mig_vm m)) ` set planned \<subseteq> names"
  shows "\<exists>bal names' mm'.
           plan_balancing_migrations ar mm names pmap planned ov = Inr (bal, names', mm') \<and>
           same_config mm mm' \<and>
           (\<forall>m \<in> set bal. vm_name (mig_vm m) \<notin> names) \<and>
           (distinct (cs_vms (mm_cluster_state mm)) \<longrightarrow> distinct (map mig_vm bal)) \<and>
           (\<forall>m \<in> set bal. balancing_move_ok (mm_cluster_state mm) m)"
proof -
  obtain det le' where e: "evaluate_imbalance ar (mm_load_evaluator mm) None (aggressiveness mm) ov
                             = Inr (det, le')"
    using evaluate_imbalance_total by blast
  let ?mm0 = "mm\<lparr>mm_load_evaluator := le'\<rparr>"
  let ?prob = "map fst (filter (\<lambda>(res, det). is_imbalanced det) det)"
  have c0: "same_config mm ?mm0" by (rule same_config_evaluator)
  have cs0: "mm_cluster_state ?mm0 = mm_cluster_state mm" by simp
  show ?thesis
  proof (cases "det = [] \<or> ?prob = []")
    case True
    then have "plan_balancing_migrations ar mm names pmap planned ov = Inr ([], names, ?mm0)"
      unfolding plan_balancing_migrations_def e by (auto simp: Let_def)
    with c0 show ?thesis by simp
  next
    case False
    obtain bal names' safety' mm1 where
      f: "fold (balancing_source_step ar det ?prob pmap) (cs_hosts (mm_cluster_state ?mm0))
            ([], names, planned, ?mm0) = (bal, names', safety', mm1)"
      by (cases "fold (balancing_source_step ar det ?prob pmap) (cs_hosts (mm_cluster_state ?mm0))
            ([], names, planned, ?mm0)") auto
    from False f have r: "plan_balancing_migrations ar mm names pmap planned ov = Inr (bal, names', mm1)"
      unfolding plan_balancing_migrations_def e by (simp add: Let_def)
    from fold_balancing_source_step[OF f _ assms] obtain new where
      c: "same_config ?mm0 mm1" and
      n: "bal = [] @ new"
         "\<forall>m \<in> set new. vm_name (mig_vm m) \<notin> names"
         "distinct (cs_vms (mm_cluster_state ?mm0)) \<longrightarrow> distinct (map mig_vm new)"
         "\<forall>m \<in> set new. balancing_move_ok (mm_cluster_state ?mm0) m"
      by auto
    from c0 c have "same_config mm mm1" by (rule same_config_trans)
    with r n show ?thesis by simp
  qed
qed

lemma plan_anti_affinity_migrations_moves:
  assumes "plan_anti_affinity_migrations ar mm {} = (aa, names, mm')"
  shows "same_config mm mm' \<and> mm_load_evaluator mm' = mm_load_evaluator mm \<and>
         names = (\<lambda>m. vm_name (mig_vm m)) ` set aa \<and>
         distinct (map (\<lambda>m. vm_name (mig_vm m)) aa) \<and>
         (\<forall>m \<in> set aa. anti_affinity_move_ok (mm_cluster_state mm) m)"
proof -
  let ?I = "\<lambda>pl ns. ns = (\<lambda>m. vm_name (mig_vm m)) ` set pl \<and>
                     distinct (map (\<lambda>m. vm_name (mig_vm m)) pl) \<and>
                     (\<forall>m \<in> set pl. anti_affinity_move_ok (mm_cluster_state mm) m)"
  have i0: "?I [] {}" by simp
  have step: "?I (pl @ [\<lparr>mig_vm = v, mig_target_host = t, mig_reason = AntiAffinity\<rparr>])
                 (insert (vm_name v) ns)"
    if "?I pl ns" "vm_name v \<notin> ns" "aa_target_ok (mm_cluster_state mm) v t" for pl ns v t
    using that by (auto simp: anti_affinity_move_ok_def)
  from plan_anti_affinity_migrations_invariant[where I = ?I, OF assms i0 step]
  show ?thesis by (simp add: same_config_def)
qed

lemma plan_all_migrations_inv:
  "\<exists>aa bal mm'.
     plan_all_migrations ar mm aao = Inr (aa @ bal, mm') \<and> same_config mm mm' \<and>
     distinct (map (\<lambda>m. vm_name (mig_vm m)) aa) \<and>
     (\<forall>m \<in> set aa. anti_affinity_move_ok (mm_cluster_state mm) m) \<and>
     (\<forall>m \<in> set bal. vm_name (mig_vm m) \<notin> (\<lambda>m. vm_name (mig_vm m)) ` set aa) \<and>
     (distinct (cs_vms (mm_cluster_state mm)) \<longrightarrow> distinct (map mig_vm bal)) \<and>
     (\<forall>m \<in> set bal. balancing_move_ok (mm_cluster_state mm) m)"
proof -
  let ?cs = "mm_cluster_state mm"
  let ?mm0 = "mm\<lparr>mm_load_evaluator := (mm_load_evaluator mm)\<lparr>le_cache := None\<rparr>\<rparr>"
  have c0: "same_config mm ?mm0" by (rule same_config_evaluator)
  obtain aa names mm1 where p: "plan_anti_affinity_migrations ar ?mm0 {} = (aa, names, mm1)"
    by (cases "plan_anti_affinity_migrations ar ?mm0 {}") auto
  from plan_anti_affinity_migrations_moves[OF p] have
    c1: "same_config ?mm0 mm1" and
    nm: "names = (\<lambda>m. vm_name (mig_vm m)) ` set aa" and
    d: "distinct (map (\<lambda>m. vm_name (mig_vm m)) aa)" and
    ok: "\<forall>m \<in> set aa. anti_affinity_move_ok ?cs m"
    by simp_all
  from c0 c1 have c01: "same_config mm mm1" by (rule same_config_trans)
  show ?thesis
  proof (cases aao)
    case True
    with p have "plan_all_migrations ar mm aao = Inr (aa @ [], mm1)"
      by (simp add: plan_all_migrations_def Let_def)
    with c01 d ok show ?thesis by (intro exI[of _ aa] exI[of _ "[]"] exI[of _ mm1]) simp
  next
    case False
    obtain pm le2 where g: "get_all_host_resource_percentages_map ar (mm_load_evaluator mm1) = Inr (pm, le2)"
      using get_all_host_resource_percentages_map_total by blast
    let ?mm2 = "mm1\<lparr>mm_load_evaluator := le2\<rparr>"
    have c2: "same_config mm1 ?mm2" by (rule same_config_evaluator)
    let ?sim = "(if aa \<noteq> []
                 then bind_err (get_simulated_load_data_after_migrations ar ?mm2 aa)
                        (\<lambda>((sim_cpu, sim_mem, sim_disk, sim_net, simulated_load_map), mm3).
                           Inr (simulated_load_map,
                                (Some sim_cpu, Some sim_mem, Some sim_disk, Some sim_net), mm3))
                 else Inr (pm, (None, None, None, None), ?mm2))"
    have "\<exists>cm ov mm3. ?sim = Inr (cm, ov, mm3) \<and> same_config ?mm2 mm3"
    proof (cases "aa = []")
      case True
      then show ?thesis by (simp add: same_config_refl)
    next
      case False
      obtain a b c' d' e mm3 where
        s: "get_simulated_load_data_after_migrations ar ?mm2 aa = Inr ((a, b, c', d', e), mm3)"
        and c: "same_config ?mm2 mm3"
        using get_simulated_load_data_after_migrations_total by blast
      from False s c show ?thesis by simp
    qed
    then obtain cm ov mm3 where s: "?sim = Inr (cm, ov, mm3)" and c3: "same_config ?mm2 mm3"
      by blast
    from c01 c2 c3 have c03: "same_config mm mm3" by (blast intro: same_config_trans)
    then have cs3: "mm_cluster_state mm3 = ?cs" by (simp add: same_config_def)
    have sub: "(\<lambda>m. vm_name (mig_vm m)) ` set aa \<subseteq> names" using nm by simp
    from plan_balancing_migrations_inv[OF sub, of ar mm3 cm ov] obtain bal names' mm4 where
      b: "plan_balancing_migrations ar mm3 names cm aa ov = Inr (bal, names', mm4)" and
      c4: "same_config mm3 mm4" and
      bn: "\<forall>m \<in> set bal. vm_name (mig_vm m) \<notin> names" and
      bd: "distinct (cs_vms (mm_cluster_state mm3)) \<longrightarrow> distinct (map mig_vm bal)" and
      bo: "\<forall>m \<in> set bal. balancing_move_ok (mm_cluster_state mm3) m"
      by blast
    from c03 c4 have c04: "same_config mm mm4" by (rule same_config_trans)
    have "plan_all_migrations ar mm aao = Inr (aa @ bal, mm4)"
      unfolding plan_all_migrations_def Let_def p using False
      by (simp add: g s b)
    with c04 d ok bn bd bo nm cs3 show ?thesis
      by (intro exI[of _ aa] exI[of _ bal] exI[of _ mm4]) simp
  qed
qed

end
